theory Spec2Isabelle
  imports
    Main
    "HOL-Library.Char_ord"
    "HOL-Library.List_Lexorder"
    "HOL-Library.AList"
    "HOL-Library.Multiset"
begin

section \<open>The httpx request helper (request.go)\<close>

text \<open>
  The package is one file, \<^verbatim>\<open>request.go\<close>: five entry functions (\<^verbatim>\<open>Get\<close>, \<^verbatim>\<open>Post\<close>,
  \<^verbatim>\<open>Put\<close>, \<^verbatim>\<open>Delete\<close>, \<^verbatim>\<open>Patch\<close>) that call \<^verbatim>\<open>performRequest\<close>, which calls
  \<^verbatim>\<open>buildRequest\<close>, \<^verbatim>\<open>serializeToReader\<close> and \<^verbatim>\<open>serializeToQueryString\<close>.
  These nine functions are embedded below, line by line. They call into Go's standard
  library; the library functions whose behaviour decides a property (\<^verbatim>\<open>Header.Set\<close>,
  \<^verbatim>\<open>url.Values\<close>, \<^verbatim>\<open>fmt.Sprint\<close>, \<^verbatim>\<open>json.Unmarshal\<close> into a map,
  \<^verbatim>\<open>http.NewRequestWithContext\<close>, \<^verbatim>\<open>Decoder.Decode\<close> at end of input) are modelled from
  their documented behaviour, and those whose result is not decided by this package
  (\<^verbatim>\<open>url.Parse\<close>, the transport, decoding into the caller's type, the rounding of a
  number to a \<^verbatim>\<open>float64\<close>) are parameters.
\<close>

subsection \<open>JSON documents and Go values\<close>

text \<open>
  A number of a JSON text: its sign and its value \<open>mantissa \<times> 10^exponent\<close>. JSON puts
  no bound on a number, so every value of this type is one a text can hold
  (\<^verbatim>\<open>1e999\<close> is \<open>Number False 1 999\<close>).
\<close>

datatype number = Number (minus: bool) (mantissa: nat) (exponent: int)

text \<open>
  A JSON text, by its structure: null, a bool, a number, a string (the string it
  denotes, escapes resolved), an array, or an object (its members in the order of the
  text; a key may repeat).
\<close>

datatype jvalue =
    JNull
  | JBool bool
  | JNumber number
  | JString string
  | JArray "jvalue list"
  | JObject "(string \<times> jvalue) list"

text \<open>
  A \<^verbatim>\<open>float64\<close>, as \<^verbatim>\<open>strconv.ParseFloat\<close> returns it, kept as its shortest decimal
  form: the digits \<open>d\<^sub>1 \<dots> d\<^sub>n\<close> (no zero at either end) and the position of the decimal
  point; the value is \<open>0.d\<^sub>1\<dots>d\<^sub>n \<times> 10^point\<close>, negated when \<open>negative\<close>. Zero has no
  digits. This is what \<^verbatim>\<open>strconv\<close> computes before it formats a float, so formatting
  is a function of this form alone. Only \<open>ParseFloat\<close> below makes one.
\<close>

datatype float64 = Float64 (negative: bool) (digits: "nat list") (point: int)

text \<open>
  What \<^verbatim>\<open>json.Unmarshal\<close> stores in an \<^verbatim>\<open>interface{}\<close>: nil, a \<^verbatim>\<open>bool\<close>, a
  \<^verbatim>\<open>float64\<close>, a \<^verbatim>\<open>string\<close>, a \<^verbatim>\<open>[]interface{}\<close> or a
  \<^verbatim>\<open>map[string]interface{}\<close> (its entries, each key once).
\<close>

datatype decoded =
    DNil
  | DBool bool
  | DFloat float64
  | DString string
  | DSlice "decoded list"
  | DMap "(string \<times> decoded) list"

text \<open>
  The package only ever applies \<^verbatim>\<open>json.Marshal\<close> to the \<^verbatim>\<open>interface{}\<close> values it is
  given (the body and the query), after comparing them with \<^verbatim>\<open>nil\<close>. So a Go value is
  modelled by what these two operations see: the nil interface, a value that
  \<^verbatim>\<open>json.Marshal\<close> rejects (with the library's message), or a value that
  \<^verbatim>\<open>json.Marshal\<close> renders as a document. A nil pointer or nil map held in an interface
  is not the nil interface: it is \<open>Marshals JNull\<close>.
\<close>

datatype any = NilAny | Unmarshalable string | Marshals jvalue

subsection \<open>Errors\<close>

text \<open>
  The cause an error wraps (\<^verbatim>\<open>%w\<close>): errors the model produces itself, and
  \<open>LibraryError\<close> for the message of a library call that is a parameter here.
  \<open>UnmarshalTypeError t\<close> is \<^verbatim>\<open>json: cannot unmarshal t into Go value of type ...\<close>;
  \<open>NumberOutOfRange n\<close> is the same error for a number that does not fit a
  \<^verbatim>\<open>float64\<close> (\<^verbatim>\<open>cannot unmarshal number 1e999 ...\<close>).
\<close>

datatype cause =
    InvalidMethod string
  | NilContext
  | UnmarshalTypeError string
  | NumberOutOfRange number
  | SyntaxError string
  | EOF
  | LibraryError string

record URL =
  Scheme :: string
  Opaque :: string
  User :: "(string \<times> string option) option"
  Host :: string
  Path :: string
  RawPath :: string
  OmitHost :: bool
  ForceQuery :: bool
  RawQuery :: string
  Fragment :: string
  RawFragment :: string

text \<open>
  One constructor for each \<^verbatim>\<open>fmt.Errorf\<close> of the file. \<open>StatusFailed\<close> is
  \<^verbatim>\<open>"request %s failed with status: %s"\<close> with \<^verbatim>\<open>req.URL.String()\<close> and
  \<^verbatim>\<open>resp.Status\<close>: it keeps the URL whose text is printed and the status text.
\<close>

datatype error =
    SerializeDataFailed cause
  | CreateRequestFailed cause
  | SerializeQueryFailed cause
  | UnmarshalQueryFailed cause
  | ExecuteRequestFailed cause
  | StatusFailed URL string
  | DecodeResponseFailed cause

subsection \<open>Requests, responses, options\<close>

text \<open>
  \<^verbatim>\<open>http.Request\<close>, the fields this package sets: the context, the method, the URL, the
  host, the header (a map from canonical key to values) and the body (the JSON text
  \<^verbatim>\<open>json.Marshal\<close> produced, as the document it denotes; \<open>None\<close> is no body).
\<close>

record 'c Request =
  reqCtx :: 'c
  reqMethod :: string
  reqURL :: URL
  reqHost :: string
  reqHeader :: "string \<rightharpoonup> string list"
  reqBody :: "jvalue option"

text \<open>\<^verbatim>\<open>http.Response\<close>: \<^verbatim>\<open>StatusCode\<close>, \<^verbatim>\<open>Status\<close> and the bytes of \<^verbatim>\<open>Body\<close>.\<close>

record Response =
  StatusCode :: int
  Status :: string
  ResponseBody :: string

text \<open>\<^verbatim>\<open>Client.Do\<close>: the transport, a response or the transport's error.\<close>

type_synonym 'c Client = "'c Request \<Rightarrow> string + Response"

text \<open>
  \<^verbatim>\<open>RequestOptions\<close> (lines 13-20). \<open>None\<close> is a nil pointer or nil map. A Go map has
  each key once; \<open>Headers\<close> lists its entries in the order this call's \<^verbatim>\<open>range\<close>
  visits them, which the runtime chooses.
\<close>

record 'c RequestOptions =
  Client :: "'c Client option"
  Method :: string
  URL :: string
  Headers :: "(string \<times> string) list option"
  Query :: any
  Body :: any

text \<open>
  What the package takes from its environment: \<^verbatim>\<open>url.Parse\<close>, the global
  \<^verbatim>\<open>http.DefaultClient\<close>, the order in which \<^verbatim>\<open>range\<close> visits the entries of the
  decoded query map, and the rounding of \<^verbatim>\<open>strconv.ParseFloat\<close>: the \<^verbatim>\<open>float64\<close>
  nearest to a number that needs rounding.
\<close>

record 'c stdlib =
  url_Parse :: "string \<Rightarrow> string + URL"
  DefaultClient :: "'c Client"
  range_order :: "(string \<times> decoded) list \<Rightarrow> (string \<times> decoded) list"
  nearest_float64 :: "number \<Rightarrow> float64"

text \<open>
  What a call does to the outside, in order: the request handed to \<^verbatim>\<open>Client.Do\<close>
  (line 58), the decoding of the response body (line 69), and the deferred
  \<^verbatim>\<open>resp.Body.Close()\<close> (line 62), which runs when the function returns.
\<close>

datatype 'c effect = Sent "'c Request" | BodyDecoded | BodyClosed

text \<open>The Go return \<^verbatim>\<open>(*T, error)\<close>, both nilable, and the effects of the call.\<close>

record ('c, 't) outcome =
  result :: "'t option"
  err :: "error option"
  effects :: "'c effect list"

subsection \<open>Library: characters, header keys\<close>

definition is_digit :: "char \<Rightarrow> bool" where
  "is_digit c = (CHR ''0'' \<le> c \<and> c \<le> CHR ''9'')"

definition is_lower :: "char \<Rightarrow> bool" where
  "is_lower c = (CHR ''a'' \<le> c \<and> c \<le> CHR ''z'')"

definition is_upper :: "char \<Rightarrow> bool" where
  "is_upper c = (CHR ''A'' \<le> c \<and> c \<le> CHR ''Z'')"

text \<open>
  The token characters of RFC 7230 (\<^verbatim>\<open>httpguts.IsTokenRune\<close>,
  \<^verbatim>\<open>validHeaderFieldByte\<close>); 0x27 is the apostrophe, 0x60 the backquote.
\<close>

definition is_token_char :: "char \<Rightarrow> bool" where
  "is_token_char c =
     (is_digit c \<or> is_lower c \<or> is_upper c \<or> c \<in> set ''!#$%&*+-.^_|~'' \<or> c = CHR 0x27 \<or> c = CHR 0x60)"

definition to_upper :: "char \<Rightarrow> char" where
  "to_upper c = char_of (of_char c - (32::nat))"

definition to_lower :: "char \<Rightarrow> char" where
  "to_lower c = char_of (of_char c + (32::nat))"

text \<open>
  The loop of \<^verbatim>\<open>canonicalMIMEHeaderKey\<close>: upper case for the first letter and for a
  letter after a hyphen, lower case for every other letter.
\<close>

fun canonical_case :: "bool \<Rightarrow> string \<Rightarrow> string" where
  "canonical_case upper [] = []"
| "canonical_case upper (c # cs) =
     (let c' = (if upper \<and> is_lower c then to_upper c
                else if \<not> upper \<and> is_upper c then to_lower c
                else c)
      in c' # canonical_case (c' = CHR ''-'') cs)"

text \<open>
  \<^verbatim>\<open>textproto.CanonicalMIMEHeaderKey\<close>: a key with a byte that is not a token
  character is returned unchanged.
\<close>

definition CanonicalMIMEHeaderKey :: "string \<Rightarrow> string" where
  "CanonicalMIMEHeaderKey s = (if list_all is_token_char s then canonical_case True s else s)"

text \<open>\<^verbatim>\<open>Header.Set\<close>: the values under the canonical key are replaced by the one value.\<close>

definition Header_Set :: "(string \<rightharpoonup> string list) \<Rightarrow> string \<Rightarrow> string \<Rightarrow> (string \<rightharpoonup> string list)" where
  "Header_Set h key v = h(CanonicalMIMEHeaderKey key \<mapsto> [v])"

subsection \<open>Library: fmt.Sprint of a decoded JSON value\<close>

definition digit_char :: "nat \<Rightarrow> char" where
  "digit_char d = char_of (48 + d)"

text \<open>\<^verbatim>\<open>strings.Join\<close>.\<close>

fun join :: "string \<Rightarrow> string list \<Rightarrow> string" where
  "join sep [] = []"
| "join sep [x] = x"
| "join sep (x # y # ys) = x @ sep @ join sep (y # ys)"

text \<open>
  \<^verbatim>\<open>strconv\<close>'s \<^verbatim>\<open>%e\<close> form of the shortest digits: the first digit, the others after
  a point, and the exponent with sign and at least two digits.
\<close>

definition fmtE :: "float64 \<Rightarrow> string" where
  "fmtE f =
     (let ds = digits f; e = point f - 1; n = nat (abs e) in
      (if negative f then ''-'' else []) @
      [case ds of [] \<Rightarrow> CHR ''0'' | d # _ \<Rightarrow> digit_char d] @
      (if length ds > 1 then ''.'' @ map digit_char (tl ds) else []) @
      ''e'' @ (if e < 0 then ''-'' else ''+'') @
      (if n < 10 then [CHR ''0'', digit_char n]
       else if n < 100 then [digit_char (n div 10), digit_char (n mod 10)]
       else [digit_char (n div 100), digit_char ((n div 10) mod 10), digit_char (n mod 10)]))"

text \<open>
  \<^verbatim>\<open>strconv\<close>'s \<^verbatim>\<open>%f\<close> form of the shortest digits: the integer part padded with
  zeros (or \<^verbatim>\<open>0\<close>), then the fraction digits when there are any.
\<close>

definition fmtF :: "float64 \<Rightarrow> string" where
  "fmtF f =
     (let ds = digits f; dp = point f; nd = int (length ds); prec = nat (max (nd - dp) 0) in
      (if negative f then ''-'' else []) @
      (if dp > 0 then map digit_char (take (nat dp) ds) @ replicate (nat dp - length ds) (CHR ''0'')
       else ''0'') @
      (if prec > 0
       then ''.'' @ map (\<lambda>i. let j = dp + int i in
                               if 0 \<le> j \<and> j < nd then digit_char (ds ! nat j) else CHR ''0'') [0..<prec]
       else []))"

text \<open>
  \<^verbatim>\<open>%v\<close> of a \<^verbatim>\<open>float64\<close> is \<^verbatim>\<open>strconv.FormatFloat(f, 'g', -1, 64)\<close>: the exponent
  form when the decimal exponent is below -4 or at least 6, the plain form otherwise.
\<close>

definition formatFloat :: "float64 \<Rightarrow> string" where
  "formatFloat f = (let e = point f - 1 in if e < -4 \<or> e \<ge> 6 then fmtE f else fmtF f)"

text \<open>
  \<^verbatim>\<open>json.Unmarshal\<close> fills a Go map member by member, a later member replacing an
  earlier one with the same key.
\<close>

definition object_entries :: "(string \<times> 'a) list \<Rightarrow> (string \<times> 'a) list" where
  "object_entries kvs = fold (\<lambda>(k, v) m. AList.update k v m) kvs []"

text \<open>
  \<^verbatim>\<open>fmt.Sprint\<close> of a value \<^verbatim>\<open>json.Unmarshal\<close> produced: a string as it is, a bool as
  \<^verbatim>\<open>true\<close> or \<^verbatim>\<open>false\<close>, a number by \<^verbatim>\<open>%v\<close>, nil as \<^verbatim>\<open><nil>\<close>, a slice as
  \<^verbatim>\<open>[a b]\<close>, a map as \<^verbatim>\<open>map[k:v k:v]\<close> with its keys sorted.
\<close>

fun Sprint :: "decoded \<Rightarrow> string" where
  "Sprint DNil = ''<nil>''"
| "Sprint (DBool b) = (if b then ''true'' else ''false'')"
| "Sprint (DFloat f) = formatFloat f"
| "Sprint (DString s) = s"
| "Sprint (DSlice xs) = ''['' @ join '' '' (map Sprint xs) @ '']''"
| "Sprint (DMap m) =
     ''map['' @
     join '' '' (map (\<lambda>(k, s). k @ '':'' @ s)
                   (sort_key fst (map (\<lambda>(k, v). (k, Sprint v)) m))) @
     '']''"

subsection \<open>Library: url.Values\<close>

text \<open>
  \<^verbatim>\<open>url.QueryEscape\<close>: letters, digits and \<^verbatim>\<open>- _ . ~\<close> stay, a space becomes
  \<^verbatim>\<open>+\<close>, every other byte becomes \<^verbatim>\<open>%XX\<close> in upper-case hexadecimal.
\<close>

definition shouldEscape :: "char \<Rightarrow> bool" where
  "shouldEscape c = (\<not> (is_lower c \<or> is_upper c \<or> is_digit c \<or> c \<in> set ''-_.~''))"

definition upperhex :: "nat \<Rightarrow> char" where
  "upperhex n = ''0123456789ABCDEF'' ! n"

definition escape_byte :: "char \<Rightarrow> string" where
  "escape_byte c =
     (if shouldEscape c
      then (if c = CHR '' '' then ''+''
            else [CHR ''%'', upperhex (of_char c div 16), upperhex (of_char c mod 16)])
      else [c])"

definition QueryEscape :: "string \<Rightarrow> string" where
  "QueryEscape s = concat (map escape_byte s)"

text \<open>
  \<^verbatim>\<open>url.Values\<close> is \<^verbatim>\<open>map[string][]string\<close>: an association list with each key once.
  \<^verbatim>\<open>Values.Add\<close> appends the value to the key's list.
\<close>

type_synonym Values = "(string \<times> string list) list"

definition Values_Add :: "Values \<Rightarrow> string \<Rightarrow> string \<Rightarrow> Values" where
  "Values_Add v key x = AList.map_default key [x] (\<lambda>xs. xs @ [x]) v"

text \<open>
  \<^verbatim>\<open>Values.Encode\<close>: the keys are sorted; for each key and each of its values the
  buffer gets \<^verbatim>\<open>&\<close> unless it is empty, then the escaped key, \<^verbatim>\<open>=\<close> and the escaped
  value.
\<close>

definition Encode :: "Values \<Rightarrow> string" where
  "Encode v =
     (if v = [] then []
      else let keys = sort (map fst v) in
        fold (\<lambda>k buf.
                let vs = (case map_of v k of None \<Rightarrow> [] | Some xs \<Rightarrow> xs);
                    keyEscaped = QueryEscape k
                in fold (\<lambda>x buf. (if buf \<noteq> [] then buf @ ''&'' else buf) @
                                    keyEscaped @ ''='' @ QueryEscape x) vs buf)
             keys [])"

subsection \<open>Library: json.Unmarshal into a map, Decoder.Decode\<close>

text \<open>The decimal digits of a natural number, none for zero.\<close>

fun digits_of :: "nat \<Rightarrow> nat list" where
  "digits_of n = (if n = 0 then [] else digits_of (n div 10) @ [n mod 10])"

text \<open>
  The digits of a number without the zeros at its end, and the decimal point put before
  them: the decimal form of the number itself.
\<close>

definition decimal_form :: "number \<Rightarrow> float64" where
  "decimal_form n =
     (let ds = digits_of (mantissa n);
          significant = rev (dropWhile (\<lambda>d. d = 0) (rev ds))
      in if significant = [] then Float64 (minus n) [] 0
         else Float64 (minus n) significant (int (length ds) + exponent n))"

text \<open>
  \<^verbatim>\<open>ParseFloat\<close> rounds to the nearest \<^verbatim>\<open>float64\<close>. A number at least half a unit
  in the last place above the largest \<^verbatim>\<open>float64\<close>, that is, of magnitude
  \<open>2^1024 - 2^970\<close> or more, rounds to infinity and is a range error.
\<close>

definition overflows :: "number \<Rightarrow> bool" where
  "overflows n =
     (if 0 \<le> exponent n
      then (2 ^ 1024 - 2 ^ 970 :: int) \<le> int (mantissa n) * 10 ^ nat (exponent n)
      else (2 ^ 1024 - 2 ^ 970 :: int) * 10 ^ nat (- exponent n) \<le> int (mantissa n))"

text \<open>
  Zero, and a number of at most 15 significant digits between \<open>10^-307\<close> and
  \<open>10^308\<close>, where a \<^verbatim>\<open>float64\<close> is normal and holds 15 decimal digits: the shortest
  decimal form of the nearest \<^verbatim>\<open>float64\<close> is then the number's own.
\<close>

definition needs_no_rounding :: "number \<Rightarrow> bool" where
  "needs_no_rounding n =
     (let f = decimal_form n
      in digits f = [] \<or> (length (digits f) \<le> 15 \<and> -306 \<le> point f \<and> point f \<le> 308))"

text \<open>
  \<^verbatim>\<open>strconv.ParseFloat(s, 64)\<close>, as \<^verbatim>\<open>json.Unmarshal\<close> calls it for a number stored
  in an \<^verbatim>\<open>interface{}\<close>. A number that underflows is no error. For a number that
  needs rounding the result is the library's: \<open>nearest\<close> stands for
  \<open>nearest_float64\<close> of the environment.
\<close>

definition ParseFloat :: "(number \<Rightarrow> float64) \<Rightarrow> number \<Rightarrow> cause + float64" where
  "ParseFloat nearest n =
     (if overflows n then Inl (NumberOutOfRange n)
      else if needs_no_rounding n then Inr (decimal_form n)
      else Inr (nearest n))"

text \<open>The first error of a list of results, or all the values.\<close>

fun collect :: "(cause + 'a) list \<Rightarrow> cause + 'a list" where
  "collect [] = Inr []"
| "collect (Inl e # rs) = Inl e"
| "collect (Inr v # rs) = (case collect rs of Inl e \<Rightarrow> Inl e | Inr vs \<Rightarrow> Inr (v # vs))"

text \<open>
  \<^verbatim>\<open>json.Unmarshal\<close> of a JSON text into an \<^verbatim>\<open>interface{}\<close>. The only value that can
  fail is a number that does not fit a \<^verbatim>\<open>float64\<close>; the first such error in the text
  is the one returned. A map is filled member by member, so every member is decoded,
  also one that a later member replaces.
\<close>

fun Unmarshal_value :: "(number \<Rightarrow> float64) \<Rightarrow> jvalue \<Rightarrow> cause + decoded" where
  "Unmarshal_value nearest JNull = Inr DNil"
| "Unmarshal_value nearest (JBool b) = Inr (DBool b)"
| "Unmarshal_value nearest (JNumber n) =
     (case ParseFloat nearest n of Inl e \<Rightarrow> Inl e | Inr f \<Rightarrow> Inr (DFloat f))"
| "Unmarshal_value nearest (JString s) = Inr (DString s)"
| "Unmarshal_value nearest (JArray xs) =
     (case collect (map (Unmarshal_value nearest) xs) of
        Inl e \<Rightarrow> Inl e
      | Inr vs \<Rightarrow> Inr (DSlice vs))"
| "Unmarshal_value nearest (JObject kvs) =
     (case collect (map (\<lambda>(k, v). case Unmarshal_value nearest v of
                                      Inl e \<Rightarrow> Inl e
                                    | Inr d \<Rightarrow> Inr (k, d)) kvs) of
        Inl e \<Rightarrow> Inl e
      | Inr ds \<Rightarrow> Inr (DMap (object_entries ds)))"

text \<open>The members of an object, decoded into a map: a later member replaces an earlier one.\<close>

definition Unmarshal_object ::
  "(number \<Rightarrow> float64) \<Rightarrow> (string \<times> jvalue) list \<Rightarrow> cause + (string \<times> decoded) list" where
  "Unmarshal_object nearest kvs =
     (case collect (map (\<lambda>(k, v). case Unmarshal_value nearest v of
                                      Inl e \<Rightarrow> Inl e
                                    | Inr d \<Rightarrow> Inr (k, d)) kvs) of
        Inl e \<Rightarrow> Inl e
      | Inr ds \<Rightarrow> Inr (object_entries ds))"

text \<open>How deep the arrays and objects of a text are nested.\<close>

fun depth :: "jvalue \<Rightarrow> nat" where
  "depth (JArray xs) = Suc (fold max (map depth xs) 0)"
| "depth (JObject kvs) = Suc (fold max (map (\<lambda>(k, v). depth v) kvs) 0)"
| "depth j = 0"

text \<open>
  \<^verbatim>\<open>json.Unmarshal(queryBytes, &queryMap)\<close> with \<^verbatim>\<open>queryMap\<close> a nil
  \<^verbatim>\<open>map[string]interface{}\<close>. The text is scanned first, and nesting deeper than
  10000 is a syntax error. Then an object fills the map, each member decoded as above;
  \<^verbatim>\<open>null\<close> is accepted and leaves the map nil; an array, a string, a number or a bool
  is an \<^verbatim>\<open>UnmarshalTypeError\<close> and is skipped without being decoded.
\<close>

definition Unmarshal_map ::
  "(number \<Rightarrow> float64) \<Rightarrow> jvalue \<Rightarrow> cause + (string \<times> decoded) list" where
  "Unmarshal_map nearest j =
     (if 10000 < depth j then Inl (SyntaxError ''exceeded max depth'')
      else case j of
        JObject kvs \<Rightarrow> Unmarshal_object nearest kvs
      | JNull \<Rightarrow> Inr []
      | JArray xs \<Rightarrow> Inl (UnmarshalTypeError ''array'')
      | JString s \<Rightarrow> Inl (UnmarshalTypeError ''string'')
      | JNumber n \<Rightarrow> Inl (UnmarshalTypeError ''number'')
      | JBool b \<Rightarrow> Inl (UnmarshalTypeError ''bool''))"

definition is_json_space :: "char \<Rightarrow> bool" where
  "is_json_space c = (c = CHR '' '' \<or> c = CHR 0x09 \<or> c = CHR 0x0A \<or> c = CHR 0x0D)"

text \<open>
  \<^verbatim>\<open>json.NewDecoder(body).Decode(&result)\<close>: when the stream ends before any byte
  that is not white space, the error is \<^verbatim>\<open>io.EOF\<close>, whatever the type of
  \<^verbatim>\<open>result\<close>; otherwise the bytes are decoded into the caller's type \<^verbatim>\<open>T\<close>, which
  is the parameter \<open>unmarshalT\<close>.
\<close>

definition Decode :: "(string \<Rightarrow> string + 't) \<Rightarrow> string \<Rightarrow> cause + 't" where
  "Decode unmarshalT body =
     (if list_all is_json_space body then Inl EOF
      else case unmarshalT body of
             Inl msg \<Rightarrow> Inl (LibraryError msg)
           | Inr v \<Rightarrow> Inr v)"

subsection \<open>Library: http.NewRequestWithContext\<close>

definition validMethod :: "string \<Rightarrow> bool" where
  "validMethod m = (m \<noteq> [] \<and> list_all is_token_char m)"

text \<open>\<^verbatim>\<open>strings.LastIndex\<close> of one byte, -1 when it does not occur.\<close>

definition LastIndex :: "string \<Rightarrow> char \<Rightarrow> int" where
  "LastIndex s c = fold (\<lambda>(i, x) r. if x = c then int i else r) (zip [0..<length s] s) (-1)"

text \<open>\<^verbatim>\<open>removeEmptyPort\<close>: a host that ends in a colon with no port loses the colon.\<close>

definition removeEmptyPort :: "string \<Rightarrow> string" where
  "removeEmptyPort host =
     (if LastIndex host (CHR '':'') > LastIndex host (CHR '']'')
      then (if host \<noteq> [] \<and> last host = CHR '':'' then butlast host else host)
      else host)"

text \<open>
  \<^verbatim>\<open>http.NewRequestWithContext\<close>: the method is checked, then the context, then the URL
  is parsed; the new request has an empty header.
\<close>

definition NewRequestWithContext ::
  "'c stdlib \<Rightarrow> 'c option \<Rightarrow> string \<Rightarrow> string \<Rightarrow> jvalue option \<Rightarrow> cause + 'c Request" where
  "NewRequestWithContext E ctx method url body =
     (let method = (if method = [] then ''GET'' else method) in
      if \<not> validMethod method then Inl (InvalidMethod method)
      else case ctx of
        None \<Rightarrow> Inl NilContext
      | Some c \<Rightarrow>
          (case url_Parse E url of
             Inl msg \<Rightarrow> Inl (LibraryError msg)
           | Inr u \<Rightarrow>
               let u = u\<lparr>Host := removeEmptyPort (Host u)\<rparr> in
               Inr \<lparr>reqCtx = c, reqMethod = method, reqURL = u, reqHost = Host u,
                    reqHeader = Map.empty, reqBody = body\<rparr>))"

subsection \<open>request.go\<close>

text \<open>\<^verbatim>\<open>serializeToReader\<close>, lines 102-111.\<close>

definition serializeToReader :: "any \<Rightarrow> error + jvalue option" where
  "serializeToReader data =
     (case data of
        NilAny \<Rightarrow> Inr None
      | Unmarshalable msg \<Rightarrow> Inl (SerializeDataFailed (LibraryError msg))
      | Marshals bodyBytes \<Rightarrow> Inr (Some bodyBytes))"

text \<open>
  \<^verbatim>\<open>serializeToQueryString\<close>, lines 113-132. The loop of lines 126-130 visits the
  entries of \<^verbatim>\<open>queryMap\<close> in the order the runtime chooses, \<open>range_order E\<close>.
\<close>

definition serializeToQueryString :: "'c stdlib \<Rightarrow> any \<Rightarrow> error + string" where
  "serializeToQueryString E query =
     (case query of
        NilAny \<Rightarrow> Inr []
      | Unmarshalable msg \<Rightarrow> Inl (SerializeQueryFailed (LibraryError msg))
      | Marshals queryBytes \<Rightarrow>
          (case Unmarshal_map (nearest_float64 E) queryBytes of
             Inl e \<Rightarrow> Inl (UnmarshalQueryFailed e)
           | Inr queryMap \<Rightarrow>
               Inr (Encode (fold (\<lambda>(key, v) values.
                                     if v \<noteq> DNil then Values_Add values key (Sprint v)
                                     else values)
                                 (range_order E queryMap) []))))"

text \<open>\<^verbatim>\<open>buildRequest\<close>, lines 76-100.\<close>

definition buildRequest ::
  "'c stdlib \<Rightarrow> 'c option \<Rightarrow> string \<Rightarrow> string \<Rightarrow> any \<Rightarrow> 'c RequestOptions \<Rightarrow> error + 'c Request" where
  "buildRequest E ctx method url body options =
     (case serializeToReader body of
        Inl e \<Rightarrow> Inl e
      | Inr bodyReader \<Rightarrow>
          (case NewRequestWithContext E ctx method url bodyReader of
             Inl e \<Rightarrow> Inl (CreateRequestFailed e)
           | Inr req \<Rightarrow>
               let req = req\<lparr>reqHeader :=
                             fold (\<lambda>(key, v) h. Header_Set h key v)
                                  (case Headers options of None \<Rightarrow> [] | Some hs \<Rightarrow> hs)
                                  (reqHeader req)\<rparr>
               in if Query options \<noteq> NilAny
                  then (case serializeToQueryString E (Query options) of
                          Inl e \<Rightarrow> Inl e
                        | Inr queryString \<Rightarrow>
                            Inr (req\<lparr>reqURL := (reqURL req)\<lparr>RawQuery := queryString\<rparr>\<rparr>))
                  else Inr req))"

text \<open>The zero \<^verbatim>\<open>RequestOptions\<close> of line 44.\<close>

definition zeroOptions :: "'c RequestOptions" where
  "zeroOptions = \<lparr>Client = None, Method = [], URL = [], Headers = None, Query = NilAny, Body = NilAny\<rparr>"

text \<open>
  Lines 43-51: the defaults for a nil \<^verbatim>\<open>options\<close>, a nil client and a nil header map.
  When \<^verbatim>\<open>options\<close> is not nil the two assignments also change the caller's struct; the
  model keeps the values the rest of the call reads.
\<close>

definition withDefaults :: "'c stdlib \<Rightarrow> 'c RequestOptions option \<Rightarrow> 'c RequestOptions" where
  "withDefaults E options =
     (let options = (case options of None \<Rightarrow> zeroOptions | Some opts \<Rightarrow> opts);
          options = (if Client options = None then options\<lparr>Client := Some (DefaultClient E)\<rparr> else options);
          options = (if Headers options = None then options\<lparr>Headers := Some []\<rparr> else options)
      in options)"

text \<open>The client line 58 calls: \<^verbatim>\<open>options.Client\<close>, which lines 46-48 made non-nil.\<close>

definition transport :: "'c stdlib \<Rightarrow> 'c RequestOptions option \<Rightarrow> 'c Client" where
  "transport E options =
     (case Client (withDefaults E options) of None \<Rightarrow> DefaultClient E | Some client \<Rightarrow> client)"

text \<open>
  \<^verbatim>\<open>performRequest\<close>, lines 42-74. \<open>unmarshalT\<close> stands for the type parameter
  \<^verbatim>\<open>T\<close>: how a JSON text is decoded into it.
\<close>

definition performRequest ::
  "'c stdlib \<Rightarrow> (string \<Rightarrow> string + 't) \<Rightarrow> 'c option \<Rightarrow> string \<Rightarrow> string \<Rightarrow> any \<Rightarrow>
     'c RequestOptions option \<Rightarrow> ('c, 't) outcome" where
  "performRequest E unmarshalT ctx method url body options =
     (case buildRequest E ctx method url body (withDefaults E options) of
        Inl e \<Rightarrow> \<lparr>result = None, err = Some e, effects = []\<rparr>
      | Inr req \<Rightarrow>
          (case transport E options req of
             Inl msg \<Rightarrow>
               \<lparr>result = None, err = Some (ExecuteRequestFailed (LibraryError msg)),
                effects = [Sent req]\<rparr>
           | Inr resp \<Rightarrow>
               if StatusCode resp < 200 \<or> StatusCode resp \<ge> 300
               then \<lparr>result = None, err = Some (StatusFailed (reqURL req) (Status resp)),
                     effects = [Sent req, BodyClosed]\<rparr>
               else (case Decode unmarshalT (ResponseBody resp) of
                       Inl e \<Rightarrow>
                         \<lparr>result = None, err = Some (DecodeResponseFailed e),
                          effects = [Sent req, BodyDecoded, BodyClosed]\<rparr>
                     | Inr r \<Rightarrow>
                         \<lparr>result = Some r, err = None,
                          effects = [Sent req, BodyDecoded, BodyClosed]\<rparr>)))"

text \<open>The entry functions, lines 22-40. \<^verbatim>\<open>http.MethodGet\<close> is \<^verbatim>\<open>"GET"\<close>, and so on.\<close>

definition Get ::
  "'c stdlib \<Rightarrow> (string \<Rightarrow> string + 't) \<Rightarrow> 'c option \<Rightarrow> string \<Rightarrow>
     'c RequestOptions option \<Rightarrow> ('c, 't) outcome" where
  "Get E unmarshalT ctx url options = performRequest E unmarshalT ctx ''GET'' url NilAny options"

definition Post ::
  "'c stdlib \<Rightarrow> (string \<Rightarrow> string + 't) \<Rightarrow> 'c option \<Rightarrow> string \<Rightarrow> any \<Rightarrow>
     'c RequestOptions option \<Rightarrow> ('c, 't) outcome" where
  "Post E unmarshalT ctx url body options = performRequest E unmarshalT ctx ''POST'' url body options"

definition Put ::
  "'c stdlib \<Rightarrow> (string \<Rightarrow> string + 't) \<Rightarrow> 'c option \<Rightarrow> string \<Rightarrow> any \<Rightarrow>
     'c RequestOptions option \<Rightarrow> ('c, 't) outcome" where
  "Put E unmarshalT ctx url body options = performRequest E unmarshalT ctx ''PUT'' url body options"

definition Delete ::
  "'c stdlib \<Rightarrow> (string \<Rightarrow> string + 't) \<Rightarrow> 'c option \<Rightarrow> string \<Rightarrow>
     'c RequestOptions option \<Rightarrow> ('c, 't) outcome" where
  "Delete E unmarshalT ctx url options = performRequest E unmarshalT ctx ''DELETE'' url NilAny options"

definition Patch ::
  "'c stdlib \<Rightarrow> (string \<Rightarrow> string + 't) \<Rightarrow> 'c option \<Rightarrow> string \<Rightarrow> any \<Rightarrow>
     'c RequestOptions option \<Rightarrow> ('c, 't) outcome" where
  "Patch E unmarshalT ctx url body options = performRequest E unmarshalT ctx ''PATCH'' url body options"

text \<open>The requests a call handed to the transport.\<close>

fun sent :: "'c effect list \<Rightarrow> 'c Request list" where
  "sent [] = []"
| "sent (Sent r # es) = r # sent es"
| "sent (BodyDecoded # es) = sent es"
| "sent (BodyClosed # es) = sent es"

subsection \<open>Example inputs\<close>

text \<open>
  Concrete inputs for the examples below: one target, what \<^verbatim>\<open>url.Parse\<close> returns for
  it, a transport that answers every request with a fixed response, and a runtime
  that ranges over a map in reverse order. No example has a number that needs rounding,
  so \<open>nearest_float64\<close> is never called; it is given a constant. The context type is
  \<open>unit\<close>, and the result type \<^verbatim>\<open>T\<close> is the raw text (\<open>Inr\<close> decodes it).
\<close>

definition exampleTarget :: string where
  "exampleTarget = ''http://example.com/items?page=1''"

definition exampleURL :: URL where
  "exampleURL = \<lparr>Scheme = ''http'', Opaque = [], User = None, Host = ''example.com'',
     Path = ''/items'', RawPath = [], OmitHost = False, ForceQuery = False,
     RawQuery = ''page=1'', Fragment = [], RawFragment = []\<rparr>"

definition exampleParse :: "string \<Rightarrow> string + URL" where
  "exampleParse s = (if s = exampleTarget then Inr exampleURL else Inl ''not an example URL'')"

definition stubClient :: "int \<Rightarrow> string \<Rightarrow> string \<Rightarrow> unit Client" where
  "stubClient code status body = (\<lambda>req. Inr \<lparr>StatusCode = code, Status = status, ResponseBody = body\<rparr>)"

definition exampleLib :: "unit stdlib" where
  "exampleLib = \<lparr>url_Parse = exampleParse, DefaultClient = stubClient 200 ''200 OK'' ''{}'',
     range_order = rev, nearest_float64 = (\<lambda>n. Float64 (minus n) [] 0)\<rparr>"

definition exampleRequest :: "string \<Rightarrow> jvalue option \<Rightarrow> unit Request" where
  "exampleRequest m b = \<lparr>reqCtx = (), reqMethod = m, reqURL = exampleURL, reqHost = ''example.com'',
     reqHeader = Map.empty, reqBody = b\<rparr>"

definition num1 :: jvalue where
  "num1 = JNumber (Number False 1 0)"

definition num2 :: jvalue where
  "num2 = JNumber (Number False 2 0)"

section \<open>Properties\<close>

subsection \<open>The shape of a call\<close>

lemmas example_defs = Get_def Post_def Put_def Delete_def Patch_def performRequest_def
  buildRequest_def serializeToReader_def NewRequestWithContext_def validMethod_def
  is_token_char_def is_upper_def is_lower_def is_digit_def withDefaults_def zeroOptions_def
  transport_def exampleParse_def exampleURL_def exampleTarget_def stubClient_def
  removeEmptyPort_def LastIndex_def Decode_def is_json_space_def exampleRequest_def

lemma exampleLib_simps [simp]:
  "url_Parse exampleLib = exampleParse"
  "DefaultClient exampleLib = stubClient 200 ''200 OK'' ''{}''"
  "range_order exampleLib = rev"
  "nearest_float64 exampleLib = (\<lambda>n. Float64 (minus n) [] 0)"
  by (simp_all add: exampleLib_def)

lemma performRequest_exclusive:
  "(err (performRequest E D ctx m url body opts) = None) =
   (result (performRequest E D ctx m url body opts) \<noteq> None)"
  by (simp add: performRequest_def split: sum.splits)

lemma verbs_performRequest:
  assumes "out \<in> {Get E D ctx url opts, Post E D ctx url body opts, Put E D ctx url body opts,
                  Delete E D ctx url opts, Patch E D ctx url body opts}"
  obtains m b where "out = performRequest E D ctx m url b opts"
  using assms unfolding Get_def Post_def Put_def Delete_def Patch_def by blast

lemma sent_performRequest:
  "req \<in> set (sent (effects (performRequest E D ctx m url b opts))) \<Longrightarrow>
   buildRequest E ctx m url b (withDefaults E opts) = Inr req"
  by (simp add: performRequest_def split: sum.splits if_splits)

lemma performRequest_built:
  "buildRequest E ctx m url b (withDefaults E opts) = Inr req \<Longrightarrow>
   performRequest E D ctx m url b opts =
     (case transport E opts req of
        Inl msg \<Rightarrow>
          \<lparr>result = None, err = Some (ExecuteRequestFailed (LibraryError msg)),
           effects = [Sent req]\<rparr>
      | Inr resp \<Rightarrow>
          if StatusCode resp < 200 \<or> StatusCode resp \<ge> 300
          then \<lparr>result = None, err = Some (StatusFailed (reqURL req) (Status resp)),
                effects = [Sent req, BodyClosed]\<rparr>
          else (case Decode D (ResponseBody resp) of
                  Inl e \<Rightarrow>
                    \<lparr>result = None, err = Some (DecodeResponseFailed e),
                     effects = [Sent req, BodyDecoded, BodyClosed]\<rparr>
                | Inr r \<Rightarrow>
                    \<lparr>result = Some r, err = None,
                     effects = [Sent req, BodyDecoded, BodyClosed]\<rparr>))"
  by (simp add: performRequest_def)

lemma buildRequest_method:
  "buildRequest E ctx m url b opts = Inr req \<Longrightarrow> reqMethod req = (if m = [] then ''GET'' else m)"
  by (auto simp: buildRequest_def NewRequestWithContext_def Let_def
        split: sum.splits option.splits if_splits)

lemma buildRequest_body:
  "buildRequest E ctx m url b opts = Inr req \<Longrightarrow>
   reqBody req = (case b of NilAny \<Rightarrow> None | Unmarshalable msg \<Rightarrow> None | Marshals j \<Rightarrow> Some j)"
  by (auto simp: buildRequest_def NewRequestWithContext_def serializeToReader_def Let_def
        split: sum.splits option.splits if_splits any.splits)

lemma buildRequest_query:
  "buildRequest E ctx m url b opts = Inr req \<Longrightarrow> Query opts \<noteq> NilAny \<Longrightarrow>
   \<exists>u qs. url_Parse E url = Inr u \<and> serializeToQueryString E (Query opts) = Inr qs \<and>
          reqURL req = u\<lparr>Host := removeEmptyPort (Host u), RawQuery := qs\<rparr>"
  by (auto simp: buildRequest_def NewRequestWithContext_def Let_def
        split: sum.splits option.splits if_splits)

lemma withDefaults_Query: "Query (withDefaults E (Some opts)) = Query opts"
  by (simp add: withDefaults_def Let_def)

lemma withDefaults_Method:
  "withDefaults E (Some (opts\<lparr>Method := x\<rparr>)) = (withDefaults E (Some opts))\<lparr>Method := x\<rparr>"
  by (simp add: withDefaults_def Let_def)

lemma withDefaults_Body:
  "withDefaults E (Some (opts\<lparr>Body := x\<rparr>)) = (withDefaults E (Some opts))\<lparr>Body := x\<rparr>"
  by (simp add: withDefaults_def Let_def)

lemma buildRequest_Method:
  "buildRequest E ctx m url b (opts\<lparr>Method := x\<rparr>) = buildRequest E ctx m url b opts"
  by (simp add: buildRequest_def cong: sum.case_cong if_cong)

lemma buildRequest_Body:
  "buildRequest E ctx m url b (opts\<lparr>Body := x\<rparr>) = buildRequest E ctx m url b opts"
  by (simp add: buildRequest_def cong: sum.case_cong if_cong)

lemma transport_Method: "transport E (Some (opts\<lparr>Method := x\<rparr>)) = transport E (Some opts)"
  by (simp add: transport_def withDefaults_Method)

lemma transport_Body: "transport E (Some (opts\<lparr>Body := x\<rparr>)) = transport E (Some opts)"
  by (simp add: transport_def withDefaults_Body)

lemma performRequest_Method:
  "performRequest E D ctx m url b (Some (opts\<lparr>Method := x\<rparr>)) =
   performRequest E D ctx m url b (Some opts)"
  by (simp add: performRequest_def withDefaults_Method buildRequest_Method transport_Method
        cong: sum.case_cong)

lemma performRequest_Body:
  "performRequest E D ctx m url b (Some (opts\<lparr>Body := x\<rparr>)) =
   performRequest E D ctx m url b (Some opts)"
  by (simp add: performRequest_def withDefaults_Body buildRequest_Body transport_Body
        cong: sum.case_cong)


lemma example_empty_body:
  "Get exampleLib Inr (Some ()) exampleTarget
     (Some (zeroOptions\<lparr>Client := Some (stubClient 200 ''200 OK'' [])\<rparr>)) =
   \<lparr>result = None, err = Some (DecodeResponseFailed EOF),
    effects = [Sent (exampleRequest ''GET'' None), BodyDecoded, BodyClosed]\<rparr>"
  by (simp add: example_defs)

lemma example_effects:
  "effects (Get exampleLib Inr (Some ()) exampleTarget None) =
     [Sent (exampleRequest ''GET'' None), BodyDecoded, BodyClosed]"
  "effects (Delete exampleLib Inr (Some ()) exampleTarget None) =
     [Sent (exampleRequest ''DELETE'' None), BodyDecoded, BodyClosed]"
  "effects (Post exampleLib Inr (Some ()) exampleTarget (Marshals num1) None) =
     [Sent (exampleRequest ''POST'' (Some num1)), BodyDecoded, BodyClosed]"
  "effects (Put exampleLib Inr (Some ()) exampleTarget (Marshals num1) None) =
     [Sent (exampleRequest ''PUT'' (Some num1)), BodyDecoded, BodyClosed]"
  "effects (Patch exampleLib Inr (Some ()) exampleTarget (Marshals num1) None) =
     [Sent (exampleRequest ''PATCH'' (Some num1)), BodyDecoded, BodyClosed]"
  by (simp_all add: example_defs)

lemma example_query_string:
  "serializeToQueryString exampleLib (Marshals (JObject [(''a'', num1)])) = Inr ''a=1''"
  by code_simp

lemma example_query_effects:
  "effects (Get exampleLib Inr (Some ()) exampleTarget
     (Some (zeroOptions\<lparr>Query := Marshals (JObject [(''a'', num1)])\<rparr>))) =
   [Sent ((exampleRequest ''GET'' None)\<lparr>reqURL := exampleURL\<lparr>RawQuery := ''a=1''\<rparr>\<rparr>),
    BodyDecoded, BodyClosed]"
  by (simp add: example_defs example_query_string)

subsection \<open>Claims about the call as a whole\<close>




text \<open>
  C5. For every call of a verb operation: when an error is returned the result is nil,
  so the caller never gets a result together with an error.
\<close>

theorem C5_error_excludes_result:
  assumes "out \<in> {Get E D ctx url opts, Post E D ctx url body opts, Put E D ctx url body opts,
                  Delete E D ctx url opts, Patch E D ctx url body opts}"
  shows "(err out \<noteq> None \<longrightarrow> result out = None) \<and> \<not> (result out \<noteq> None \<and> err out \<noteq> None)"
proof -
  obtain m b where "out = performRequest E D ctx m url b opts"
    using assms by (rule verbs_performRequest)
  then show ?thesis
    using performRequest_exclusive[of E D ctx m url b opts] by auto
qed

theorem C5_error_excludes_result_witness:
  "err (Get exampleLib Inr (Some ()) exampleTarget
     (Some (zeroOptions\<lparr>Client := Some (stubClient 200 ''200 OK'' [])\<rparr>))) =
     Some (DecodeResponseFailed EOF) \<and>
   result (Get exampleLib Inr (Some ()) exampleTarget
     (Some (zeroOptions\<lparr>Client := Some (stubClient 200 ''200 OK'' [])\<rparr>))) = None"
proof -
  let ?opts = "Some (zeroOptions\<lparr>Client := Some (stubClient 200 ''200 OK'' [])\<rparr>)"
  let ?out = "Get exampleLib Inr (Some ()) exampleTarget ?opts"
  have 1: "?out \<in> {Get exampleLib Inr (Some ()) exampleTarget ?opts,
                    Post exampleLib Inr (Some ()) exampleTarget NilAny ?opts,
                    Put exampleLib Inr (Some ()) exampleTarget NilAny ?opts,
                    Delete exampleLib Inr (Some ()) exampleTarget ?opts,
                    Patch exampleLib Inr (Some ()) exampleTarget NilAny ?opts}"
    by simp
  have 2: "err ?out = Some (DecodeResponseFailed EOF)"
    by (simp add: example_empty_body)
  from C5_error_excludes_result[OF 1] 2 show ?thesis
    by simp
qed

text \<open>
  C7. For every call of a verb operation: when the transport answers with a status code
  in [200,300) and an empty body, the call returns no result and the decoding error of
  line 70 wrapping \<^verbatim>\<open>io.EOF\<close>, whatever the result type is.
\<close>

theorem C7_empty_body_fails_to_decode:
  assumes "out \<in> {Get E D ctx url opts, Post E D ctx url body opts, Put E D ctx url body opts,
                  Delete E D ctx url opts, Patch E D ctx url body opts}"
    and "req \<in> set (sent (effects out))"
    and "transport E opts req = Inr resp"
    and "200 \<le> StatusCode resp \<and> StatusCode resp < 300"
    and "ResponseBody resp = []"
  shows "result out = None \<and> err out = Some (DecodeResponseFailed EOF)"
proof -
  obtain m b where out: "out = performRequest E D ctx m url b opts"
    using assms(1) by (rule verbs_performRequest)
  have "buildRequest E ctx m url b (withDefaults E opts) = Inr req"
    using assms(2) unfolding out by (rule sent_performRequest)
  then show ?thesis
    using assms(3,4,5) unfolding out by (simp add: performRequest_built Decode_def)
qed

theorem C7_empty_body_fails_to_decode_witness:
  "exampleRequest ''GET'' None \<in> set (sent (effects (Get exampleLib Inr (Some ()) exampleTarget
     (Some (zeroOptions\<lparr>Client := Some (stubClient 200 ''200 OK'' [])\<rparr>))))) \<and>
   result (Get exampleLib Inr (Some ()) exampleTarget
     (Some (zeroOptions\<lparr>Client := Some (stubClient 200 ''200 OK'' [])\<rparr>))) = None \<and>
   err (Get exampleLib Inr (Some ()) exampleTarget
     (Some (zeroOptions\<lparr>Client := Some (stubClient 200 ''200 OK'' [])\<rparr>))) =
     Some (DecodeResponseFailed EOF)"
proof -
  let ?opts = "Some (zeroOptions\<lparr>Client := Some (stubClient 200 ''200 OK'' [])\<rparr>)"
  let ?out = "Get exampleLib Inr (Some ()) exampleTarget ?opts"
  let ?resp = "\<lparr>StatusCode = 200, Status = ''200 OK'', ResponseBody = []\<rparr>"
  have 1: "?out \<in> {Get exampleLib Inr (Some ()) exampleTarget ?opts,
                    Post exampleLib Inr (Some ()) exampleTarget NilAny ?opts,
                    Put exampleLib Inr (Some ()) exampleTarget NilAny ?opts,
                    Delete exampleLib Inr (Some ()) exampleTarget ?opts,
                    Patch exampleLib Inr (Some ()) exampleTarget NilAny ?opts}"
    by simp
  have 2: "exampleRequest ''GET'' None \<in> set (sent (effects ?out))"
    by (simp add: example_empty_body)
  have 3: "transport exampleLib ?opts (exampleRequest ''GET'' None) = Inr ?resp"
    by (simp add: transport_def withDefaults_def zeroOptions_def stubClient_def)
  have 4: "200 \<le> StatusCode ?resp \<and> StatusCode ?resp < 300"
    by simp
  have 5: "ResponseBody ?resp = []"
    by simp
  from C7_empty_body_fails_to_decode[OF 1 2 3 4 5] 2 show ?thesis
    by simp
qed

subsection \<open>Claims about the outbound request\<close>

text \<open>
  C4. The method of the request handed to the transport is the verb of the entry function
  that was called: \<^verbatim>\<open>GET\<close> for \<^verbatim>\<open>Get\<close>, \<^verbatim>\<open>POST\<close> for \<^verbatim>\<open>Post\<close>, \<^verbatim>\<open>PUT\<close> for
  \<^verbatim>\<open>Put\<close>, \<^verbatim>\<open>DELETE\<close> for \<^verbatim>\<open>Delete\<close>, \<^verbatim>\<open>PATCH\<close> for \<^verbatim>\<open>Patch\<close>. The
  \<^verbatim>\<open>Method\<close> field of the options plays no part: changing it changes nothing of the
  call, neither its result nor its effects.
\<close>

theorem C4_method_is_the_verb:
  "(req \<in> set (sent (effects (Get E D ctx url opts))) \<longrightarrow> reqMethod req = ''GET'') \<and>
   (req \<in> set (sent (effects (Post E D ctx url body opts))) \<longrightarrow> reqMethod req = ''POST'') \<and>
   (req \<in> set (sent (effects (Put E D ctx url body opts))) \<longrightarrow> reqMethod req = ''PUT'') \<and>
   (req \<in> set (sent (effects (Delete E D ctx url opts))) \<longrightarrow> reqMethod req = ''DELETE'') \<and>
   (req \<in> set (sent (effects (Patch E D ctx url body opts))) \<longrightarrow> reqMethod req = ''PATCH'') \<and>
   Get E D ctx url (Some (cfg\<lparr>Method := x\<rparr>)) = Get E D ctx url (Some cfg) \<and>
   Post E D ctx url body (Some (cfg\<lparr>Method := x\<rparr>)) = Post E D ctx url body (Some cfg) \<and>
   Put E D ctx url body (Some (cfg\<lparr>Method := x\<rparr>)) = Put E D ctx url body (Some cfg) \<and>
   Delete E D ctx url (Some (cfg\<lparr>Method := x\<rparr>)) = Delete E D ctx url (Some cfg) \<and>
   Patch E D ctx url body (Some (cfg\<lparr>Method := x\<rparr>)) = Patch E D ctx url body (Some cfg)"
proof -
  have m: "reqMethod req = (if m = [] then ''GET'' else m)"
    if "req \<in> set (sent (effects (performRequest E D ctx m url b opts)))" for m b
    using buildRequest_method[OF sent_performRequest[OF that]] .
  show ?thesis
    unfolding Get_def Post_def Put_def Delete_def Patch_def performRequest_Method
    using m[of "''GET''"] m[of "''POST''"] m[of "''PUT''"] m[of "''DELETE''"] m[of "''PATCH''"]
    by simp
qed

theorem C4_method_is_the_verb_witness:
  "exampleRequest ''GET'' None \<in> set (sent (effects (Get exampleLib Inr (Some ()) exampleTarget None))) \<and>
   reqMethod (exampleRequest ''GET'' None) = ''GET'' \<and>
   exampleRequest ''POST'' (Some num1)
     \<in> set (sent (effects (Post exampleLib Inr (Some ()) exampleTarget (Marshals num1) None))) \<and>
   reqMethod (exampleRequest ''POST'' (Some num1)) = ''POST'' \<and>
   exampleRequest ''PUT'' (Some num1)
     \<in> set (sent (effects (Put exampleLib Inr (Some ()) exampleTarget (Marshals num1) None))) \<and>
   reqMethod (exampleRequest ''PUT'' (Some num1)) = ''PUT'' \<and>
   exampleRequest ''DELETE'' None
     \<in> set (sent (effects (Delete exampleLib Inr (Some ()) exampleTarget None))) \<and>
   reqMethod (exampleRequest ''DELETE'' None) = ''DELETE'' \<and>
   exampleRequest ''PATCH'' (Some num1)
     \<in> set (sent (effects (Patch exampleLib Inr (Some ()) exampleTarget (Marshals num1) None))) \<and>
   reqMethod (exampleRequest ''PATCH'' (Some num1)) = ''PATCH'' \<and>
   Get exampleLib Inr (Some ()) exampleTarget (Some (zeroOptions\<lparr>Method := ''DELETE''\<rparr>)) =
   Get exampleLib Inr (Some ()) exampleTarget (Some zeroOptions)"
proof -
  note c = C4_method_is_the_verb[where E = exampleLib and D = Inr and ctx = "Some ()"
      and url = exampleTarget and opts = None and body = "Marshals num1" and cfg = zeroOptions
      and x = "''DELETE''"]
  have s1: "exampleRequest ''GET'' None
      \<in> set (sent (effects (Get exampleLib Inr (Some ()) exampleTarget None)))"
    by (simp add: example_effects)
  have s2: "exampleRequest ''POST'' (Some num1)
      \<in> set (sent (effects (Post exampleLib Inr (Some ()) exampleTarget (Marshals num1) None)))"
    by (simp add: example_effects)
  have s3: "exampleRequest ''PUT'' (Some num1)
      \<in> set (sent (effects (Put exampleLib Inr (Some ()) exampleTarget (Marshals num1) None)))"
    by (simp add: example_effects)
  have s4: "exampleRequest ''DELETE'' None
      \<in> set (sent (effects (Delete exampleLib Inr (Some ()) exampleTarget None)))"
    by (simp add: example_effects)
  have s5: "exampleRequest ''PATCH'' (Some num1)
      \<in> set (sent (effects (Patch exampleLib Inr (Some ()) exampleTarget (Marshals num1) None)))"
    by (simp add: example_effects)
  have m1: "reqMethod (exampleRequest ''GET'' None) = ''GET''"
    using c[THEN conjunct1] s1 by (rule mp)
  have m2: "reqMethod (exampleRequest ''POST'' (Some num1)) = ''POST''"
    using c[THEN conjunct2, THEN conjunct1] s2 by (rule mp)
  have m3: "reqMethod (exampleRequest ''PUT'' (Some num1)) = ''PUT''"
    using c[THEN conjunct2, THEN conjunct2, THEN conjunct1] s3 by (rule mp)
  have m4: "reqMethod (exampleRequest ''DELETE'' None) = ''DELETE''"
    using c[THEN conjunct2, THEN conjunct2, THEN conjunct2, THEN conjunct1] s4 by (rule mp)
  have m5: "reqMethod (exampleRequest ''PATCH'' (Some num1)) = ''PATCH''"
    using c[THEN conjunct2, THEN conjunct2, THEN conjunct2, THEN conjunct2, THEN conjunct1] s5
    by (rule mp)
  have e: "Get exampleLib Inr (Some ()) exampleTarget (Some (zeroOptions\<lparr>Method := ''DELETE''\<rparr>)) =
           Get exampleLib Inr (Some ()) exampleTarget (Some zeroOptions)"
    by (rule c[THEN conjunct2, THEN conjunct2, THEN conjunct2, THEN conjunct2, THEN conjunct2,
          THEN conjunct1])
  from s1 m1 s2 m2 s3 m3 s4 m4 s5 m5 e show ?thesis
    by (intro conjI)
qed

text \<open>
  C8. The \<^verbatim>\<open>Body\<close> field of the options is never read: changing it changes nothing of
  the call. The body of the request handed to the transport comes from the body argument
  alone: \<^verbatim>\<open>Get\<close> and \<^verbatim>\<open>Delete\<close> pass nil, so their request has no body; for
  \<^verbatim>\<open>Post\<close>, \<^verbatim>\<open>Put\<close> and \<^verbatim>\<open>Patch\<close> it is the JSON text of the argument, and no
  body when the argument is nil.
\<close>

theorem C8_options_body_is_never_read:
  "Get E D ctx url (Some (cfg\<lparr>Body := x\<rparr>)) = Get E D ctx url (Some cfg) \<and>
   Post E D ctx url body (Some (cfg\<lparr>Body := x\<rparr>)) = Post E D ctx url body (Some cfg) \<and>
   Put E D ctx url body (Some (cfg\<lparr>Body := x\<rparr>)) = Put E D ctx url body (Some cfg) \<and>
   Delete E D ctx url (Some (cfg\<lparr>Body := x\<rparr>)) = Delete E D ctx url (Some cfg) \<and>
   Patch E D ctx url body (Some (cfg\<lparr>Body := x\<rparr>)) = Patch E D ctx url body (Some cfg) \<and>
   (req \<in> set (sent (effects (Get E D ctx url opts))) \<longrightarrow> reqBody req = None) \<and>
   (req \<in> set (sent (effects (Delete E D ctx url opts))) \<longrightarrow> reqBody req = None) \<and>
   (req \<in> set (sent (effects (Post E D ctx url body opts))) \<or>
    req \<in> set (sent (effects (Put E D ctx url body opts))) \<or>
    req \<in> set (sent (effects (Patch E D ctx url body opts))) \<longrightarrow>
      reqBody req = (case body of NilAny \<Rightarrow> None | Unmarshalable msg \<Rightarrow> None | Marshals j \<Rightarrow> Some j))"
proof -
  have b: "reqBody req = (case b of NilAny \<Rightarrow> None | Unmarshalable msg \<Rightarrow> None | Marshals j \<Rightarrow> Some j)"
    if "req \<in> set (sent (effects (performRequest E D ctx m url b opts)))" for m b
    using buildRequest_body[OF sent_performRequest[OF that]] .
  show ?thesis
    unfolding Get_def Post_def Put_def Delete_def Patch_def performRequest_Body
    using b[of "''GET''" NilAny] b[of "''POST''" body] b[of "''PUT''" body]
      b[of "''DELETE''" NilAny] b[of "''PATCH''" body]
    by auto
qed

theorem C8_options_body_is_never_read_witness:
  "Get exampleLib Inr (Some ()) exampleTarget (Some (zeroOptions\<lparr>Body := Marshals num2\<rparr>)) =
   Get exampleLib Inr (Some ()) exampleTarget (Some zeroOptions) \<and>
   Post exampleLib Inr (Some ()) exampleTarget (Marshals num1) (Some (zeroOptions\<lparr>Body := Marshals num2\<rparr>)) =
   Post exampleLib Inr (Some ()) exampleTarget (Marshals num1) (Some zeroOptions) \<and>
   exampleRequest ''GET'' None \<in> set (sent (effects (Get exampleLib Inr (Some ()) exampleTarget None))) \<and>
   reqBody (exampleRequest ''GET'' None) = None \<and>
   exampleRequest ''DELETE'' None
     \<in> set (sent (effects (Delete exampleLib Inr (Some ()) exampleTarget None))) \<and>
   reqBody (exampleRequest ''DELETE'' None) = None \<and>
   exampleRequest ''POST'' (Some num1)
     \<in> set (sent (effects (Post exampleLib Inr (Some ()) exampleTarget (Marshals num1) None))) \<and>
   reqBody (exampleRequest ''POST'' (Some num1)) = Some num1"
proof -
  note c = C8_options_body_is_never_read[where E = exampleLib and D = Inr and ctx = "Some ()"
      and url = exampleTarget and opts = None and body = "Marshals num1" and cfg = zeroOptions
      and x = "Marshals num2"]
  have e1: "Get exampleLib Inr (Some ()) exampleTarget (Some (zeroOptions\<lparr>Body := Marshals num2\<rparr>)) =
            Get exampleLib Inr (Some ()) exampleTarget (Some zeroOptions)"
    by (rule c[THEN conjunct1])
  have e2: "Post exampleLib Inr (Some ()) exampleTarget (Marshals num1)
              (Some (zeroOptions\<lparr>Body := Marshals num2\<rparr>)) =
            Post exampleLib Inr (Some ()) exampleTarget (Marshals num1) (Some zeroOptions)"
    by (rule c[THEN conjunct2, THEN conjunct1])
  have s1: "exampleRequest ''GET'' None
      \<in> set (sent (effects (Get exampleLib Inr (Some ()) exampleTarget None)))"
    by (simp add: example_effects)
  have s2: "exampleRequest ''DELETE'' None
      \<in> set (sent (effects (Delete exampleLib Inr (Some ()) exampleTarget None)))"
    by (simp add: example_effects)
  have s3: "exampleRequest ''POST'' (Some num1)
      \<in> set (sent (effects (Post exampleLib Inr (Some ()) exampleTarget (Marshals num1) None)))"
    by (simp add: example_effects)
  have b1: "reqBody (exampleRequest ''GET'' None) = None"
    using c[THEN conjunct2, THEN conjunct2, THEN conjunct2, THEN conjunct2, THEN conjunct2,
        THEN conjunct1] s1
    by (rule mp)
  have b2: "reqBody (exampleRequest ''DELETE'' None) = None"
    using c[THEN conjunct2, THEN conjunct2, THEN conjunct2, THEN conjunct2, THEN conjunct2,
        THEN conjunct2, THEN conjunct1] s2
    by (rule mp)
  have b3: "reqBody (exampleRequest ''POST'' (Some num1)) = Some num1"
    using c[where req = "exampleRequest ''POST'' (Some num1)", THEN conjunct2, THEN conjunct2,
        THEN conjunct2, THEN conjunct2, THEN conjunct2, THEN conjunct2, THEN conjunct2] s3
    by simp
  from e1 e2 s1 b1 s2 b2 s3 b3 show ?thesis
    by (intro conjI)
qed

text \<open>
  C9. For every call whose options have a query: the request handed to the transport has
  the URL that \<^verbatim>\<open>url.Parse\<close> made of the caller's string, with \<^verbatim>\<open>RawQuery\<close> set to
  the string serialized from the query. Whatever query the caller's URL string had is
  replaced by it, not extended.
\<close>

theorem C9_query_replaces_url_query:
  assumes "out \<in> {Get E D ctx url (Some cfg), Post E D ctx url body (Some cfg),
                  Put E D ctx url body (Some cfg), Delete E D ctx url (Some cfg),
                  Patch E D ctx url body (Some cfg)}"
    and "req \<in> set (sent (effects out))"
    and "Query cfg \<noteq> NilAny"
  shows "\<exists>u qs. url_Parse E url = Inr u \<and> serializeToQueryString E (Query cfg) = Inr qs \<and>
           reqURL req = u\<lparr>Host := removeEmptyPort (Host u), RawQuery := qs\<rparr> \<and>
           RawQuery (reqURL req) = qs"
proof -
  obtain m b where out: "out = performRequest E D ctx m url b (Some cfg)"
    using assms(1) by (rule verbs_performRequest)
  have "buildRequest E ctx m url b (withDefaults E (Some cfg)) = Inr req"
    using assms(2) unfolding out by (rule sent_performRequest)
  from buildRequest_query[OF this] assms(3) show ?thesis
    by (auto simp: withDefaults_Query)
qed

theorem C9_query_replaces_url_query_witness:
  "url_Parse exampleLib exampleTarget = Inr exampleURL \<and> RawQuery exampleURL = ''page=1'' \<and>
   (exampleRequest ''GET'' None)\<lparr>reqURL := exampleURL\<lparr>RawQuery := ''a=1''\<rparr>\<rparr>
     \<in> set (sent (effects (Get exampleLib Inr (Some ()) exampleTarget
          (Some (zeroOptions\<lparr>Query := Marshals (JObject [(''a'', num1)])\<rparr>))))) \<and>
   serializeToQueryString exampleLib (Marshals (JObject [(''a'', num1)])) = Inr ''a=1'' \<and>
   RawQuery (reqURL ((exampleRequest ''GET'' None)\<lparr>reqURL := exampleURL\<lparr>RawQuery := ''a=1''\<rparr>\<rparr>)) = ''a=1''"
proof -
  let ?cfg = "zeroOptions\<lparr>Query := Marshals (JObject [(''a'', num1)])\<rparr> :: unit RequestOptions"
  let ?out = "Get exampleLib Inr (Some ()) exampleTarget (Some ?cfg)"
  let ?req = "(exampleRequest ''GET'' None)\<lparr>reqURL := exampleURL\<lparr>RawQuery := ''a=1''\<rparr>\<rparr>"
  have 1: "?out \<in> {Get exampleLib Inr (Some ()) exampleTarget (Some ?cfg),
                    Post exampleLib Inr (Some ()) exampleTarget NilAny (Some ?cfg),
                    Put exampleLib Inr (Some ()) exampleTarget NilAny (Some ?cfg),
                    Delete exampleLib Inr (Some ()) exampleTarget (Some ?cfg),
                    Patch exampleLib Inr (Some ()) exampleTarget NilAny (Some ?cfg)}"
    by simp
  have 2: "?req \<in> set (sent (effects ?out))"
    by (simp add: example_query_effects)
  have 3: "Query ?cfg \<noteq> NilAny"
    by simp
  have 4: "url_Parse exampleLib exampleTarget = Inr exampleURL"
    by (simp add: exampleParse_def)
  from C9_query_replaces_url_query[OF 1 2 3] 2 4 show ?thesis
    by (simp add: example_query_string exampleURL_def)
qed


subsection \<open>Headers\<close>

text \<open>
  The loop of lines 87-89, run on any header \<open>h0\<close>: under a name there is afterwards
  the value of the last entry visited whose key has that canonical form, and what
  \<open>h0\<close> had when there is no such entry.
\<close>

lemma header_loop:
  "fold (\<lambda>(key, v) h. Header_Set h key v) hs h0 name =
     (case map snd (filter (\<lambda>(k, v). CanonicalMIMEHeaderKey k = name) hs) of
        [] \<Rightarrow> h0 name
      | v # vs \<Rightarrow> Some [last (v # vs)])"
proof (induction hs arbitrary: h0)
  case Nil
  then show ?case by simp
next
  case (Cons p ps)
  obtain k v where p: "p = (k, v)" by (cases p)
  show ?case
    unfolding p using Cons.IH[of "Header_Set h0 k v"]
    by (simp add: Header_Set_def split: list.splits)
qed

lemma buildRequest_header:
  "buildRequest E ctx m url b opts = Inr req \<Longrightarrow>
   reqHeader req = fold (\<lambda>(key, v) h. Header_Set h key v)
                     (case Headers opts of None \<Rightarrow> [] | Some hs \<Rightarrow> hs) Map.empty"
  by (auto simp: buildRequest_def NewRequestWithContext_def Let_def
        split: sum.splits option.splits if_splits)

lemma withDefaults_Headers:
  "Headers cfg = Some hs \<Longrightarrow> Headers (withDefaults E (Some cfg)) = Some hs"
  by (simp add: withDefaults_def Let_def)

lemma unique_key_filter:
  assumes "distinct (map fst hs)" "(k, v) \<in> set hs"
    and "\<forall>(k', v') \<in> set hs. f k' = f k \<longrightarrow> k' = k"
  shows "map snd (filter (\<lambda>(k', v'). f k' = f k) hs) = [v]"
  using assms
proof (induction hs)
  case Nil
  then show ?case by simp
next
  case (Cons p ps)
  obtain k' v' where p: "p = (k', v')" by (cases p)
  show ?case
  proof (cases "k' = k")
    case True
    then have v: "v' = v" using Cons.prems(1,2) p by (auto simp: image_iff)
    have "filter (\<lambda>(k', v'). f k' = f k) ps = []"
      using Cons.prems(1,3) True p by (fastforce simp: filter_empty_conv image_iff)
    then show ?thesis using True v p by simp
  next
    case False
    then have "f k' \<noteq> f k" using Cons.prems(3) p by auto
    moreover have "(k, v) \<in> set ps" using Cons.prems(2) False p by auto
    ultimately show ?thesis using Cons.IH Cons.prems p by simp
  qed
qed

lemma canonical_x_token: "CanonicalMIMEHeaderKey ''x-token'' = ''X-Token''"
  by code_simp

lemma example_header_effects:
  "effects (Get exampleLib Inr (Some ()) exampleTarget
     (Some (zeroOptions\<lparr>Headers := Some [(''x-token'', ''abc'')]\<rparr>))) =
   [Sent ((exampleRequest ''GET'' None)\<lparr>reqHeader := [''X-Token'' \<mapsto> [''abc'']]\<rparr>),
    BodyDecoded, BodyClosed]"
  by (simp add: example_defs Header_Set_def canonical_x_token)

text \<open>
  C6, as the claim states it: every entry of \<^verbatim>\<open>options.Headers\<close> is applied under its
  exact key. That fails for the map \<^verbatim>\<open>{"x-token": "abc"}\<close>: the request has nothing
  under \<^verbatim>\<open>x-token\<close>; \<^verbatim>\<open>Header.Set\<close> put the value under \<^verbatim>\<open>X-Token\<close>.
\<close>

theorem C6_exact_key_counterexample:
  "length (sent (effects (Get exampleLib Inr (Some ()) exampleTarget
     (Some (zeroOptions\<lparr>Headers := Some [(''x-token'', ''abc'')]\<rparr>))))) = 1 \<and>
   reqHeader (hd (sent (effects (Get exampleLib Inr (Some ()) exampleTarget
     (Some (zeroOptions\<lparr>Headers := Some [(''x-token'', ''abc'')]\<rparr>)))))) ''x-token'' = None \<and>
   reqHeader (hd (sent (effects (Get exampleLib Inr (Some ()) exampleTarget
     (Some (zeroOptions\<lparr>Headers := Some [(''x-token'', ''abc'')]\<rparr>)))))) ''X-Token'' = Some [''abc'']"
  by (simp add: example_header_effects)

text \<open>
  C6, amended. Every entry \<open>(k, v)\<close> of \<^verbatim>\<open>options.Headers\<close> is applied under the
  canonical form of \<open>k\<close>, with its value unchanged: the header of the request has, under
  each name, the value of the entry visited last among those whose key has that
  canonical form, and nothing under other names. So an entry whose key is the only one
  with its canonical form is in the request with exactly its value, and the loop would
  put it there over whatever a header held under that name before.
\<close>

theorem C6_headers_by_canonical_key:
  assumes "out \<in> {Get E D ctx url (Some cfg), Post E D ctx url body (Some cfg),
                  Put E D ctx url body (Some cfg), Delete E D ctx url (Some cfg),
                  Patch E D ctx url body (Some cfg)}"
    and "req \<in> set (sent (effects out))"
    and "Headers cfg = Some hs"
    and "distinct (map fst hs)"
  shows "reqHeader req name =
           (case map snd (filter (\<lambda>(k, v). CanonicalMIMEHeaderKey k = name) hs) of
              [] \<Rightarrow> None
            | v # vs \<Rightarrow> Some [last (v # vs)]) \<and>
         ((k, v) \<in> set hs \<and>
          (\<forall>(k', v') \<in> set hs. CanonicalMIMEHeaderKey k' = CanonicalMIMEHeaderKey k \<longrightarrow> k' = k) \<longrightarrow>
            reqHeader req (CanonicalMIMEHeaderKey k) = Some [v] \<and>
            (\<forall>h0. fold (\<lambda>(key, v) h. Header_Set h key v) hs h0 (CanonicalMIMEHeaderKey k) = Some [v]))"
proof -
  obtain m b where out: "out = performRequest E D ctx m url b (Some cfg)"
    using assms(1) by (rule verbs_performRequest)
  have "buildRequest E ctx m url b (withDefaults E (Some cfg)) = Inr req"
    using assms(2) unfolding out by (rule sent_performRequest)
  then have h: "reqHeader req = fold (\<lambda>(key, v) h. Header_Set h key v) hs Map.empty"
    using buildRequest_header withDefaults_Headers[OF assms(3)] by fastforce
  have 1: "reqHeader req n =
           (case map snd (filter (\<lambda>(k, v). CanonicalMIMEHeaderKey k = n) hs) of
              [] \<Rightarrow> None
            | v # vs \<Rightarrow> Some [last (v # vs)])" for n
    unfolding h header_loop by simp
  have 2: "reqHeader req (CanonicalMIMEHeaderKey k) = Some [v] \<and>
           (\<forall>h0. fold (\<lambda>(key, v) h. Header_Set h key v) hs h0 (CanonicalMIMEHeaderKey k) = Some [v])"
    if "(k, v) \<in> set hs"
      and "\<forall>(k', v') \<in> set hs. CanonicalMIMEHeaderKey k' = CanonicalMIMEHeaderKey k \<longrightarrow> k' = k"
    unfolding 1 header_loop unique_key_filter[OF assms(4) that] by simp
  show ?thesis using 1 2 by blast
qed

theorem C6_headers_by_canonical_key_witness:
  "(exampleRequest ''GET'' None)\<lparr>reqHeader := [''X-Token'' \<mapsto> [''abc'']]\<rparr>
     \<in> set (sent (effects (Get exampleLib Inr (Some ()) exampleTarget
          (Some (zeroOptions\<lparr>Headers := Some [(''x-token'', ''abc'')]\<rparr>))))) \<and>
   CanonicalMIMEHeaderKey ''x-token'' = ''X-Token'' \<and>
   reqHeader ((exampleRequest ''GET'' None)\<lparr>reqHeader := [''X-Token'' \<mapsto> [''abc'']]\<rparr>)
     (CanonicalMIMEHeaderKey ''x-token'') = Some [''abc'']"
proof -
  let ?cfg = "zeroOptions\<lparr>Headers := Some [(''x-token'', ''abc'')]\<rparr> :: unit RequestOptions"
  let ?out = "Get exampleLib Inr (Some ()) exampleTarget (Some ?cfg)"
  let ?req = "(exampleRequest ''GET'' None)\<lparr>reqHeader := [''X-Token'' \<mapsto> [''abc'']]\<rparr>"
  have 1: "?out \<in> {Get exampleLib Inr (Some ()) exampleTarget (Some ?cfg),
                    Post exampleLib Inr (Some ()) exampleTarget NilAny (Some ?cfg),
                    Put exampleLib Inr (Some ()) exampleTarget NilAny (Some ?cfg),
                    Delete exampleLib Inr (Some ()) exampleTarget (Some ?cfg),
                    Patch exampleLib Inr (Some ()) exampleTarget NilAny (Some ?cfg)}"
    by simp
  have 2: "?req \<in> set (sent (effects ?out))"
    by (simp add: example_header_effects)
  have 3: "Headers ?cfg = Some [(''x-token'', ''abc'')]"
    by simp
  have 4: "distinct (map fst [(''x-token'', ''abc'')])"
    by simp
  have 5: "(''x-token'', ''abc'') \<in> set [(''x-token'', ''abc'')] \<and>
           (\<forall>(k', v') \<in> set [(''x-token'', ''abc'')].
              CanonicalMIMEHeaderKey k' = CanonicalMIMEHeaderKey ''x-token'' \<longrightarrow> k' = ''x-token'')"
    by simp
  from C6_headers_by_canonical_key[OF 1 2 3 4, THEN conjunct2, THEN mp, OF 5] 2 show ?thesis
    by (simp add: canonical_x_token)
qed

subsection \<open>A query that is not an object\<close>

lemma verbs_cases:
  assumes "out \<in> {Get E D ctx url opts, Post E D ctx url body opts, Put E D ctx url body opts,
                  Delete E D ctx url opts, Patch E D ctx url body opts}"
  obtains m b where "out = performRequest E D ctx m url b opts"
    and "m \<in> {''GET'', ''POST'', ''PUT'', ''DELETE'', ''PATCH''}" and "b = NilAny \<or> b = body"
  using assms unfolding Get_def Post_def Put_def Delete_def Patch_def by blast

lemma validMethod_verbs:
  "m \<in> {''GET'', ''POST'', ''PUT'', ''DELETE'', ''PATCH''} \<Longrightarrow> m \<noteq> [] \<and> validMethod m"
  by (auto simp: validMethod_def is_token_char_def is_upper_def)

lemma Unmarshal_map_type_error:
  "j \<noteq> JNull \<Longrightarrow> \<forall>kvs. j \<noteq> JObject kvs \<Longrightarrow>
   \<exists>e. Unmarshal_map nearest j = Inl e \<and> (depth j \<le> 10000 \<longrightarrow> (\<exists>t. e = UnmarshalTypeError t))"
  by (cases j) (auto simp: Unmarshal_map_def)

lemma buildRequest_query_type_error:
  assumes "Query opts = Marshals j" "j \<noteq> JNull" "\<forall>kvs. j \<noteq> JObject kvs"
  shows "\<exists>e. (depth j \<le> 10000 \<longrightarrow> (\<exists>t. e = UnmarshalTypeError t)) \<and>
           buildRequest E ctx m url b opts =
           (case serializeToReader b of
              Inl e' \<Rightarrow> Inl e'
            | Inr r \<Rightarrow>
               (case NewRequestWithContext E ctx m url r of
                  Inl e' \<Rightarrow> Inl (CreateRequestFailed e')
                | Inr req \<Rightarrow> Inl (UnmarshalQueryFailed e)))"
proof -
  obtain e where e: "Unmarshal_map (nearest_float64 E) j = Inl e"
    and t: "depth j \<le> 10000 \<longrightarrow> (\<exists>t. e = UnmarshalTypeError t)"
    using Unmarshal_map_type_error[OF assms(2,3)] by blast
  have "serializeToQueryString E (Query opts) = Inl (UnmarshalQueryFailed e)"
    using e by (simp add: serializeToQueryString_def assms(1))
  then have "buildRequest E ctx m url b opts =
           (case serializeToReader b of
              Inl e' \<Rightarrow> Inl e'
            | Inr r \<Rightarrow>
               (case NewRequestWithContext E ctx m url r of
                  Inl e' \<Rightarrow> Inl (CreateRequestFailed e')
                | Inr req \<Rightarrow> Inl (UnmarshalQueryFailed e)))"
    by (auto simp: buildRequest_def assms(1) split: sum.splits)
  with t show ?thesis by blast
qed

lemma buildRequest_null_query:
  assumes "Query opts = Marshals JNull" "range_order E [] = []"
    and "serializeToReader b = Inr r" "NewRequestWithContext E ctx m url r = Inr req0"
  shows "\<exists>req. buildRequest E ctx m url b opts = Inr req \<and> RawQuery (reqURL req) = []"
  using assms
  by (simp add: buildRequest_def serializeToQueryString_def Unmarshal_map_def Encode_def Let_def)

lemma example_null_query:
  "serializeToQueryString exampleLib (Marshals JNull) = Inr []"
  by (simp add: serializeToQueryString_def Unmarshal_map_def Encode_def)

lemma example_null_query_call:
  "Get exampleLib Inr (Some ()) exampleTarget (Some (zeroOptions\<lparr>Query := Marshals JNull\<rparr>)) =
   \<lparr>result = Some ''{}'', err = None,
    effects = [Sent ((exampleRequest ''GET'' None)\<lparr>reqURL := exampleURL\<lparr>RawQuery := []\<rparr>\<rparr>),
               BodyDecoded, BodyClosed]\<rparr>"
  by (simp add: example_defs example_null_query)

lemma example_body_fails_first:
  "Post exampleLib Inr (Some ()) exampleTarget (Unmarshalable ''json: unsupported type: chan int'')
     (Some (zeroOptions\<lparr>Query := Marshals (JArray [num1, num2])\<rparr>)) =
   \<lparr>result = None,
    err = Some (SerializeDataFailed (LibraryError ''json: unsupported type: chan int'')),
    effects = []\<rparr>"
  by (simp add: example_defs)

lemma example_array_query_call:
  "Get exampleLib Inr (Some ()) exampleTarget
     (Some (zeroOptions\<lparr>Query := Marshals (JArray [num1, num2])\<rparr>)) =
   \<lparr>result = None, err = Some (UnmarshalQueryFailed (UnmarshalTypeError ''array'')),
    effects = []\<rparr>"
  by (simp add: example_defs serializeToQueryString_def Unmarshal_map_def num1_def num2_def)

text \<open>
  C3, as the claim states it: a query whose JSON is not an object makes the call fail
  with the query error, before anything is sent. That fails in two ways. A query that
  marshals to \<^verbatim>\<open>null\<close> (a nil pointer, say) is accepted: the call succeeds and the
  request is sent, with an empty query string. And with a query that is an array, a body
  that cannot be marshalled fails first, with the error of line 108.
\<close>

theorem C3_non_object_query_counterexample:
  "err (Get exampleLib Inr (Some ()) exampleTarget
          (Some (zeroOptions\<lparr>Query := Marshals JNull\<rparr>))) = None \<and>
   length (sent (effects (Get exampleLib Inr (Some ()) exampleTarget
          (Some (zeroOptions\<lparr>Query := Marshals JNull\<rparr>))))) = 1 \<and>
   err (Post exampleLib Inr (Some ()) exampleTarget (Unmarshalable ''json: unsupported type: chan int'')
          (Some (zeroOptions\<lparr>Query := Marshals (JArray [num1, num2])\<rparr>))) =
     Some (SerializeDataFailed (LibraryError ''json: unsupported type: chan int''))"
  by (simp add: example_null_query_call example_body_fails_first)

text \<open>
  C3, amended. For every call whose query marshals to a JSON text that is not an
  object. When the text is an array, a string, a number or a bool, the call returns an
  error and no result, and nothing is handed to the transport; the error is the one of
  line 123 (the query does not unmarshal into a map; a type error unless the text is
  nested deeper than 10000) whenever the body can be marshalled, the context is not nil
  and the URL parses, which are checked before the query. When the text is \<^verbatim>\<open>null\<close>,
  then under the same three conditions (and with \<^verbatim>\<open>range\<close> over an empty map visiting
  nothing) the query is accepted: one request is handed to the transport, with an empty
  query string.
\<close>

theorem C3_non_object_query_fails:
  assumes "out \<in> {Get E D ctx url (Some cfg), Post E D ctx url body (Some cfg),
                  Put E D ctx url body (Some cfg), Delete E D ctx url (Some cfg),
                  Patch E D ctx url body (Some cfg)}"
    and "Query cfg = Marshals j"
    and "\<forall>kvs. j \<noteq> JObject kvs"
  shows "(j \<noteq> JNull \<longrightarrow>
            result out = None \<and> err out \<noteq> None \<and> effects out = [] \<and>
            ((\<forall>msg. body \<noteq> Unmarshalable msg) \<and> ctx \<noteq> None \<and> (\<exists>u. url_Parse E url = Inr u) \<longrightarrow>
               (\<exists>e. err out = Some (UnmarshalQueryFailed e) \<and>
                    (depth j \<le> 10000 \<longrightarrow> (\<exists>t. e = UnmarshalTypeError t))))) \<and>
         (j = JNull \<and> (\<forall>msg. body \<noteq> Unmarshalable msg) \<and> ctx \<noteq> None \<and>
          (\<exists>u. url_Parse E url = Inr u) \<and> range_order E [] = [] \<longrightarrow>
            (\<exists>req. sent (effects out) = [req] \<and> RawQuery (reqURL req) = []))"
proof -
  obtain m b where out: "out = performRequest E D ctx m url b (Some cfg)"
    and m: "m \<in> {''GET'', ''POST'', ''PUT'', ''DELETE'', ''PATCH''}" and b: "b = NilAny \<or> b = body"
    using assms(1) by (rule verbs_cases)
  have q: "Query (withDefaults E (Some cfg)) = Marshals j"
    by (simp add: withDefaults_Query assms(2))
  have created: "\<exists>r req0. serializeToReader b = Inr r \<and> NewRequestWithContext E ctx m url r = Inr req0"
    if p1: "\<forall>msg. body \<noteq> Unmarshalable msg" and p2: "ctx \<noteq> None"
      and p3: "\<exists>u. url_Parse E url = Inr u"
  proof -
    have "\<exists>r. serializeToReader b = Inr r"
      using b p1 by (auto simp: serializeToReader_def split: any.splits)
    then obtain r where r: "serializeToReader b = Inr r" ..
    have "\<exists>req0. NewRequestWithContext E ctx m url r = Inr req0"
      using p2 p3 validMethod_verbs[OF m]
      by (auto simp: NewRequestWithContext_def Let_def)
    with r show ?thesis by blast
  qed
  have 1: "result out = None \<and> err out \<noteq> None \<and> effects out = [] \<and>
            ((\<forall>msg. body \<noteq> Unmarshalable msg) \<and> ctx \<noteq> None \<and> (\<exists>u. url_Parse E url = Inr u) \<longrightarrow>
               (\<exists>e. err out = Some (UnmarshalQueryFailed e) \<and>
                    (depth j \<le> 10000 \<longrightarrow> (\<exists>t. e = UnmarshalTypeError t))))"
    if n: "j \<noteq> JNull"
  proof -
    obtain e where t: "depth j \<le> 10000 \<longrightarrow> (\<exists>t. e = UnmarshalTypeError t)"
      and br: "buildRequest E ctx m url b (withDefaults E (Some cfg)) =
           (case serializeToReader b of
              Inl e' \<Rightarrow> Inl e'
            | Inr r \<Rightarrow>
               (case NewRequestWithContext E ctx m url r of
                  Inl e' \<Rightarrow> Inl (CreateRequestFailed e')
                | Inr req \<Rightarrow> Inl (UnmarshalQueryFailed e)))"
      using buildRequest_query_type_error[OF q n assms(3)] by blast
    then obtain e' where e': "buildRequest E ctx m url b (withDefaults E (Some cfg)) = Inl e'"
      by (auto split: sum.splits)
    have a: "result out = None \<and> err out \<noteq> None \<and> effects out = []"
      unfolding out by (simp add: performRequest_def e')
    have c: "\<exists>e. err out = Some (UnmarshalQueryFailed e) \<and>
                 (depth j \<le> 10000 \<longrightarrow> (\<exists>t. e = UnmarshalTypeError t))"
      if h: "(\<forall>msg. body \<noteq> Unmarshalable msg) \<and> ctx \<noteq> None \<and> (\<exists>u. url_Parse E url = Inr u)"
    proof -
      obtain r req0 where "serializeToReader b = Inr r" "NewRequestWithContext E ctx m url r = Inr req0"
        using created h by blast
      then have "buildRequest E ctx m url b (withDefaults E (Some cfg)) = Inl (UnmarshalQueryFailed e)"
        using br by simp
      then have "err out = Some (UnmarshalQueryFailed e)"
        unfolding out by (simp add: performRequest_def)
      with t show ?thesis by blast
    qed
    show ?thesis using a c by blast
  qed
  have 2: "\<exists>req. sent (effects out) = [req] \<and> RawQuery (reqURL req) = []"
    if h: "j = JNull \<and> (\<forall>msg. body \<noteq> Unmarshalable msg) \<and> ctx \<noteq> None \<and>
        (\<exists>u. url_Parse E url = Inr u) \<and> range_order E [] = []"
  proof -
    obtain r req0 where c: "serializeToReader b = Inr r" "NewRequestWithContext E ctx m url r = Inr req0"
      using created h by blast
    have "Query (withDefaults E (Some cfg)) = Marshals JNull"
      using q h by simp
    then obtain req where br: "buildRequest E ctx m url b (withDefaults E (Some cfg)) = Inr req"
      and rq: "RawQuery (reqURL req) = []"
      using buildRequest_null_query[OF _ _ c] h by blast
    have "sent (effects out) = [req]"
      unfolding out performRequest_built[OF br] by (simp split: sum.splits)
    with rq show ?thesis by blast
  qed
  show ?thesis using 1 2 by blast
qed

theorem C3_non_object_query_fails_witness:
  "result (Get exampleLib Inr (Some ()) exampleTarget
     (Some (zeroOptions\<lparr>Query := Marshals (JArray [num1, num2])\<rparr>))) = None \<and>
   effects (Get exampleLib Inr (Some ()) exampleTarget
     (Some (zeroOptions\<lparr>Query := Marshals (JArray [num1, num2])\<rparr>))) = [] \<and>
   err (Get exampleLib Inr (Some ()) exampleTarget
     (Some (zeroOptions\<lparr>Query := Marshals (JArray [num1, num2])\<rparr>))) =
     Some (UnmarshalQueryFailed (UnmarshalTypeError ''array'')) \<and>
   (\<exists>req. sent (effects (Get exampleLib Inr (Some ()) exampleTarget
             (Some (zeroOptions\<lparr>Query := Marshals JNull\<rparr>)))) = [req] \<and>
          RawQuery (reqURL req) = [])"
proof -
  let ?cfg = "zeroOptions\<lparr>Query := Marshals (JArray [num1, num2])\<rparr> :: unit RequestOptions"
  let ?out = "Get exampleLib Inr (Some ()) exampleTarget (Some ?cfg)"
  let ?ncfg = "zeroOptions\<lparr>Query := Marshals JNull\<rparr> :: unit RequestOptions"
  let ?nout = "Get exampleLib Inr (Some ()) exampleTarget (Some ?ncfg)"
  have 1: "?out \<in> {Get exampleLib Inr (Some ()) exampleTarget (Some ?cfg),
                    Post exampleLib Inr (Some ()) exampleTarget NilAny (Some ?cfg),
                    Put exampleLib Inr (Some ()) exampleTarget NilAny (Some ?cfg),
                    Delete exampleLib Inr (Some ()) exampleTarget (Some ?cfg),
                    Patch exampleLib Inr (Some ()) exampleTarget NilAny (Some ?cfg)}"
    by simp
  have 2: "Query ?cfg = Marshals (JArray [num1, num2])"
    by simp
  have 3: "\<forall>kvs. JArray [num1, num2] \<noteq> JObject kvs"
    by simp
  have 4: "JArray [num1, num2] \<noteq> JNull"
    by simp
  have 5: "(\<forall>msg. NilAny \<noteq> Unmarshalable msg) \<and> Some () \<noteq> None \<and>
           (\<exists>u. url_Parse exampleLib exampleTarget = Inr u)"
    by (simp add: exampleParse_def)
  have a: "result ?out = None \<and> effects ?out = [] \<and>
           err ?out = Some (UnmarshalQueryFailed (UnmarshalTypeError ''array''))"
    using C3_non_object_query_fails[OF 1 2 3, THEN conjunct1, THEN mp, OF 4] 5
    by (simp add: example_array_query_call)
  have 6: "?nout \<in> {Get exampleLib Inr (Some ()) exampleTarget (Some ?ncfg),
                    Post exampleLib Inr (Some ()) exampleTarget NilAny (Some ?ncfg),
                    Put exampleLib Inr (Some ()) exampleTarget NilAny (Some ?ncfg),
                    Delete exampleLib Inr (Some ()) exampleTarget (Some ?ncfg),
                    Patch exampleLib Inr (Some ()) exampleTarget NilAny (Some ?ncfg)}"
    by simp
  have 7: "Query ?ncfg = Marshals JNull"
    by simp
  have 8: "\<forall>kvs. JNull \<noteq> JObject kvs"
    by simp
  have 9: "JNull = JNull \<and> (\<forall>msg. NilAny \<noteq> Unmarshalable msg) \<and> Some () \<noteq> None \<and>
           (\<exists>u. url_Parse exampleLib exampleTarget = Inr u) \<and> range_order exampleLib [] = []"
    by (simp add: exampleParse_def)
  have b: "\<exists>req. sent (effects ?nout) = [req] \<and> RawQuery (reqURL req) = []"
    by (rule C3_non_object_query_fails[OF 6 7 8, THEN conjunct2, THEN mp, OF 9])
  from a b show ?thesis by blast
qed

subsection \<open>The query string\<close>

text \<open>
  The string \<^verbatim>\<open>serializeToQueryString\<close> returns for an object that unmarshals,
  whatever order \<^verbatim>\<open>range\<close> visits the map in: the entries of the decoded map that are
  not nil, sorted by key, each as escaped key, \<^verbatim>\<open>=\<close>, escaped \<^verbatim>\<open>fmt.Sprint\<close> of the
  value, joined by \<^verbatim>\<open>&\<close>. A member of the object is null exactly when its entry in the
  decoded map is nil.
\<close>

lemma map_default_fresh:
  "k \<notin> fst ` set xs \<Longrightarrow> AList.map_default k v f xs = xs @ [(k, v)]"
  by (induction xs) auto

lemma join_snoc: "xs \<noteq> [] \<Longrightarrow> join sep (xs @ [x]) = join sep xs @ sep @ x"
  by (induction sep xs rule: join.induct) auto

lemma fold_join:
  assumes "\<And>p. g p \<noteq> []"
  shows "fold (\<lambda>p buf. (if buf \<noteq> [] then buf @ sep else buf) @ g p) ps [] = join sep (map g ps) \<and>
         (ps \<noteq> [] \<longrightarrow> join sep (map g ps) \<noteq> [])"
proof (induction ps rule: rev_induct)
  case Nil
  then show ?case by simp
next
  case (snoc p ps)
  show ?case
  proof (cases "ps = []")
    case True
    then show ?thesis using assms by simp
  next
    case False
    then show ?thesis using snoc assms by (simp add: join_snoc)
  qed
qed

lemma filter_key_unique:
  "distinct (map f xs) \<Longrightarrow> k \<in> set xs \<Longrightarrow> filter (\<lambda>x. f k = f x) xs = [k]"
proof (induction xs)
  case Nil
  then show ?case by simp
next
  case (Cons x xs)
  show ?case
  proof (cases "x = k")
    case True
    then have "filter (\<lambda>x. f k = f x) xs = []"
      using Cons.prems(1) by (auto simp: filter_empty_conv image_iff)
    then show ?thesis using True by simp
  next
    case False
    then have "k \<in> set xs" using Cons.prems(2) by simp
    moreover have "f k \<noteq> f x" using Cons.prems(1) calculation by (auto simp: image_iff)
    ultimately show ?thesis using Cons by simp
  qed
qed

lemma sort_key_permutation:
  assumes "mset xs = mset ys" "distinct (map f xs)"
  shows "sort_key f xs = sort_key f ys"
proof -
  have d: "distinct (map f ys)"
    using assms by (metis mset_eq_imp_distinct_iff mset_map)
  have s: "set xs = set ys"
    using assms(1) by (rule mset_eq_setD)
  show ?thesis
  proof (rule properties_for_sort_key)
    show "mset (sort_key f ys) = mset xs" using assms(1) by simp
    show "sorted (map f (sort_key f ys))" by simp
    show "filter (\<lambda>x. f k = f x) (sort_key f ys) = filter (\<lambda>x. f k = f x) xs"
      if "k \<in> set (sort_key f ys)" for k
    proof -
      have k: "k \<in> set ys" "k \<in> set xs" using that s by simp_all
      have "filter (\<lambda>x. f k = f x) (sort_key f ys) = filter (\<lambda>x. f k = f x) ys"
        using sort_key_stable[of f "f k" ys] by (simp add: eq_commute)
      then show ?thesis
        using filter_key_unique[OF d k(1)] filter_key_unique[OF assms(2) k(2)] by simp
    qed
  qed
qed


lemma map_insort_key: "map f (insort_key f x xs) = insort (f x) (map f xs)"
  by (induction xs) simp_all

lemma sort_map_key: "sort (map f xs) = map f (sort_key f xs)"
  by (induction xs) (simp_all add: map_insort_key)

lemma query_loop:
  "distinct (map fst m) \<Longrightarrow> fst ` set acc \<inter> fst ` set m = {} \<Longrightarrow>
   fold (\<lambda>(key, v) values. if v \<noteq> DNil then Values_Add values key (Sprint v) else values) m acc =
   acc @ map (\<lambda>(k, v). (k, [Sprint v])) (filter (\<lambda>(k, v). v \<noteq> DNil) m)"
proof (induction m arbitrary: acc)
  case Nil
  then show ?case by simp
next
  case (Cons p ps)
  obtain k v where p: "p = (k, v)" by (cases p)
  have d: "distinct (map fst ps)" and k: "k \<notin> fst ` set ps" "k \<notin> fst ` set acc"
    using Cons.prems p by auto
  show ?case
  proof (cases "v = DNil")
    case True
    have "fst ` set acc \<inter> fst ` set ps = {}" using Cons.prems(2) by auto
    from Cons.IH[OF d this] show ?thesis by (simp add: p True)
  next
    case False
    have a: "Values_Add acc k (Sprint v) = acc @ [(k, [Sprint v])]"
      unfolding Values_Add_def using k(2) by (rule map_default_fresh)
    have "fst ` set (acc @ [(k, [Sprint v])]) \<inter> fst ` set ps = {}"
      using Cons.prems(2) k(1) p by auto
    from Cons.IH[OF d this] show ?thesis by (simp add: p False a)
  qed
qed

lemma Encode_single_valued:
  assumes "distinct (map fst ps)"
  shows "Encode (map (\<lambda>(k, v). (k, [g v])) ps) =
         join ''&'' (map (\<lambda>(k, v). QueryEscape k @ ''='' @ QueryEscape (g v)) (sort_key fst ps))"
proof (cases "ps = []")
  case True
  then show ?thesis by (simp add: Encode_def)
next
  case False
  let ?V = "map (\<lambda>(k, v). (k, [g v])) ps"
  let ?pair = "\<lambda>(k, v). QueryEscape k @ ''='' @ QueryEscape (g v)"
  let ?step = "\<lambda>k buf.
                let vs = (case map_of ?V k of None \<Rightarrow> [] | Some xs \<Rightarrow> xs);
                    keyEscaped = QueryEscape k
                in fold (\<lambda>x buf. (if buf \<noteq> [] then buf @ ''&'' else buf) @
                                    keyEscaped @ ''='' @ QueryEscape x) vs buf"
  have keys: "map fst ?V = map fst ps"
    by (induction ps) auto
  have lookup: "map_of ?V k = Some [g v]" if "(k, v) \<in> set ps" for k v
  proof -
    have "distinct (map fst ?V)" unfolding keys by (rule assms)
    moreover have "(k, [g v]) \<in> set ?V" using that by force
    ultimately show ?thesis by (rule map_of_is_SomeI)
  qed
  have "Encode ?V = fold ?step (sort (map fst ?V)) []"
    using False by (simp add: Encode_def)
  also have "\<dots> = fold ?step (map fst (sort_key fst ps)) []"
    by (simp only: keys sort_map_key)
  also have "\<dots> = fold (?step \<circ> fst) (sort_key fst ps) []"
    by (simp only: fold_map)
  also have "\<dots> = fold (\<lambda>p buf. (if buf \<noteq> [] then buf @ ''&'' else buf) @ ?pair p) (sort_key fst ps) []"
  proof (rule fold_cong)
    show "(?step \<circ> fst) p = (\<lambda>buf. (if buf \<noteq> [] then buf @ ''&'' else buf) @ ?pair p)"
      if "p \<in> set (sort_key fst ps)" for p
    proof -
      obtain k v where p: "p = (k, v)" by (cases p)
      then have "(k, v) \<in> set ps" using that by simp
      from lookup[OF this] show ?thesis by (simp add: p fun_eq_iff)
    qed
  qed simp_all
  also have "\<dots> = join ''&'' (map ?pair (sort_key fst ps))"
    by (rule fold_join[THEN conjunct1]) (simp split: prod.splits)
  finally show ?thesis .
qed

lemma distinct_object_entries: "distinct (map fst (object_entries kvs))"
proof -
  have "distinct (map fst acc) \<Longrightarrow> distinct (map fst (fold (\<lambda>(k, v) m. AList.update k v m) kvs acc))"
    for acc :: "(string \<times> 'a) list"
    by (induction kvs arbitrary: acc) (auto simp: distinct_update)
  then show ?thesis by (simp add: object_entries_def)
qed

lemma query_string_of_entries:
  assumes "mset m = mset es" "distinct (map fst es)"
  shows "Encode (fold (\<lambda>(key, v) values. if v \<noteq> DNil then Values_Add values key (Sprint v) else values) m []) =
         join ''&'' (map (\<lambda>(k, v). QueryEscape k @ ''='' @ QueryEscape (Sprint v))
                      (sort_key fst (filter (\<lambda>(k, v). v \<noteq> DNil) es)))"
proof -
  let ?nonnull = "\<lambda>(k, v). v \<noteq> DNil"
  have dm: "distinct (map fst m)"
    using assms by (metis mset_eq_imp_distinct_iff mset_map)
  have df: "distinct (map fst (filter ?nonnull m))"
    using dm by (rule distinct_map_filter)
  have "mset (filter ?nonnull m) = mset (filter ?nonnull es)"
    using assms(1) by simp
  then have s: "sort_key fst (filter ?nonnull m) = sort_key fst (filter ?nonnull es)"
    using df by (rule sort_key_permutation)
  show ?thesis
    using query_loop[OF dm, of "[]"] Encode_single_valued[OF df, of Sprint] s by simp
qed


lemma collect_Inr: "collect rs = Inr vs \<Longrightarrow> rs = map Inr vs"
proof (induction rs arbitrary: vs)
  case Nil
  then show ?case by simp
next
  case (Cons r rs)
  then show ?case
    by (cases r) (auto split: sum.splits)
qed

lemma update_related:
  assumes "list_all2 (\<lambda>(k, v) (k', d). k' = k \<and> P v d) al al'" "P v d"
  shows "list_all2 (\<lambda>(k, v) (k', d). k' = k \<and> P v d) (AList.update k v al) (AList.update k d al')"
  using assms(1)
proof (induction rule: list_all2_induct)
  case Nil
  then show ?case using assms(2) by simp
next
  case (Cons x xs y ys)
  then show ?case using assms(2) by (auto split: prod.splits)
qed

lemma object_entries_related:
  assumes "list_all2 (\<lambda>(k, v) (k', d). k' = k \<and> P v d) kvs ds"
  shows "list_all2 (\<lambda>(k, v) (k', d). k' = k \<and> P v d) (object_entries kvs) (object_entries ds)"
proof -
  have "list_all2 (\<lambda>(k, v) (k', d). k' = k \<and> P v d)
          (fold (\<lambda>(k, v) m. AList.update k v m) kvs al) (fold (\<lambda>(k, v) m. AList.update k v m) ds al')"
    if "list_all2 (\<lambda>(k, v) (k', d). k' = k \<and> P v d) al al'" for al al'
    using assms that
  proof (induction arbitrary: al al' rule: list_all2_induct)
    case Nil
    then show ?case by simp
  next
    case (Cons x xs y ys)
    obtain k v d where x: "x = (k, v)" and y: "y = (k, d)" and p: "P v d"
      using Cons.hyps(1) by (cases x; cases y) auto
    show ?case
      unfolding x y using Cons.IH[OF update_related[OF Cons.prems p]] by simp
  qed
  then show ?thesis by (simp add: object_entries_def)
qed

lemma Unmarshal_object_related:
  assumes "Unmarshal_object nearest kvs = Inr m"
  shows "list_all2 (\<lambda>(k, v) (k', d). k' = k \<and> Unmarshal_value nearest v = Inr d) (object_entries kvs) m"
proof -
  obtain ds where c: "map (\<lambda>(k, v). case Unmarshal_value nearest v of
                                      Inl e \<Rightarrow> Inl e
                                    | Inr d \<Rightarrow> Inr (k, d)) kvs = map Inr ds"
    and m: "m = object_entries ds"
    using assms collect_Inr by (fastforce simp: Unmarshal_object_def split: sum.splits)
  have "list_all2 (\<lambda>(k, v) (k', d). k' = k \<and> Unmarshal_value nearest v = Inr d) kvs ds"
    using c
  proof (induction kvs arbitrary: ds)
    case Nil
    then show ?case by simp
  next
    case (Cons x xs)
    then show ?case
      by (cases ds) (auto split: prod.splits sum.splits)
  qed
  then show ?thesis unfolding m by (rule object_entries_related)
qed

lemma Unmarshal_value_DNil: "Unmarshal_value nearest v = Inr DNil \<longleftrightarrow> v = JNull"
  by (cases v) (auto split: sum.splits)

lemma Unmarshal_object_null:
  assumes "Unmarshal_object nearest kvs = Inr m"
  shows "(k, JNull) \<in> set (object_entries kvs) \<longleftrightarrow> (k, DNil) \<in> set m"
proof -
  note r = Unmarshal_object_related[OF assms]
  show ?thesis
  proof
    assume "(k, JNull) \<in> set (object_entries kvs)"
    then obtain i where i: "i < length (object_entries kvs)" "object_entries kvs ! i = (k, JNull)"
      by (auto simp: in_set_conv_nth)
    then have "(\<lambda>(k, v) (k', d). k' = k \<and> Unmarshal_value nearest v = Inr d) (k, JNull) (m ! i)"
      using r by (metis list_all2_nthD)
    then have "m ! i = (k, DNil)"
      by (cases "m ! i") auto
    moreover have "i < length m" using i(1) r by (simp add: list_all2_lengthD)
    ultimately show "(k, DNil) \<in> set m" by (metis nth_mem)
  next
    assume "(k, DNil) \<in> set m"
    then obtain i where i: "i < length m" "m ! i = (k, DNil)"
      by (auto simp: in_set_conv_nth)
    then have "(\<lambda>(k, v) (k', d). k' = k \<and> Unmarshal_value nearest v = Inr d)
                 (object_entries kvs ! i) (k, DNil)"
      using r by (metis list_all2_nthD2)
    then have "object_entries kvs ! i = (k, JNull)"
      by (cases "object_entries kvs ! i") (auto simp: Unmarshal_value_DNil)
    moreover have "i < length (object_entries kvs)" using i(1) r by (simp add: list_all2_lengthD)
    ultimately show "(k, JNull) \<in> set (object_entries kvs)" by (metis nth_mem)
  qed
qed

lemma Unmarshal_object_distinct:
  "Unmarshal_object nearest kvs = Inr m \<Longrightarrow> distinct (map fst m)"
  by (auto simp: Unmarshal_object_def distinct_object_entries split: sum.splits)

lemma serializeToQueryString_object:
  assumes "mset (range_order E m) = mset m"
    and "Unmarshal_map (nearest_float64 E) (JObject kvs) = Inr m"
  shows "serializeToQueryString E (Marshals (JObject kvs)) =
         Inr (join ''&'' (map (\<lambda>(k, v). QueryEscape k @ ''='' @ QueryEscape (Sprint v))
                (sort_key fst (filter (\<lambda>(k, v). v \<noteq> DNil) m))))"
proof -
  have "Unmarshal_object (nearest_float64 E) kvs = Inr m"
    using assms(2) by (simp add: Unmarshal_map_def split: if_splits)
  then have "distinct (map fst m)"
    by (rule Unmarshal_object_distinct)
  from query_string_of_entries[OF assms(1) this] show ?thesis
    by (simp add: serializeToQueryString_def assms(2))
qed

lemma serializeToQueryString_failed:
  "Unmarshal_map (nearest_float64 E) j = Inl e \<Longrightarrow>
   serializeToQueryString E (Marshals j) = Inl (UnmarshalQueryFailed e)"
  by (simp add: serializeToQueryString_def)

lemma serializeToQueryString_order:
  assumes "\<And>m. mset (range_order E m) = mset m" "\<And>m. mset (range_order E' m) = mset m"
    and "nearest_float64 E' = nearest_float64 E"
  shows "serializeToQueryString E q = serializeToQueryString E' q"
proof (cases q)
  case NilAny
  then show ?thesis by (simp add: serializeToQueryString_def)
next
  case (Unmarshalable msg)
  then show ?thesis by (simp add: serializeToQueryString_def)
next
  case (Marshals j)
  show ?thesis
  proof (cases "Unmarshal_map (nearest_float64 E) j")
    case (Inl e)
    then show ?thesis
      by (simp add: Marshals serializeToQueryString_def assms(3))
  next
    case (Inr m)
    then have m': "Unmarshal_map (nearest_float64 E') j = Inr m"
      by (simp add: assms(3))
    have d: "distinct (map fst m)"
    proof (cases j)
      case (JObject kvs)
      then have "Unmarshal_object (nearest_float64 E) kvs = Inr m"
        using Inr by (simp add: Unmarshal_map_def split: if_splits)
      then show ?thesis by (rule Unmarshal_object_distinct)
    qed (use Inr in \<open>auto simp: Unmarshal_map_def split: if_splits\<close>)
    show ?thesis
      using query_string_of_entries[OF assms(1) d] query_string_of_entries[OF assms(2) d]
      by (simp add: Marshals serializeToQueryString_def Inr m')
  qed
qed

lemma example_decoded:
  "Unmarshal_map nearest (JObject [(''a'', num1), (''b'', JNull), (''c'', JString ''x'')]) =
     Inr [(''a'', DFloat (Float64 False [1] 1)), (''b'', DNil), (''c'', DString ''x'')]"
  by code_simp

lemma example_pairs:
  "join ''&'' (map (\<lambda>(k, v). QueryEscape k @ ''='' @ QueryEscape (Sprint v))
     (sort_key fst (filter (\<lambda>(k, v). v \<noteq> DNil)
        [(''a'', DFloat (Float64 False [1] 1)), (''b'', DNil), (''c'', DString ''x'')]))) = ''a=1&c=x''"
  by code_simp

lemma example_entries:
  "(''b'', JNull) \<in> set (object_entries [(''a'', num1), (''b'', JNull), (''c'', JString ''x'')])"
  by (simp add: object_entries_def)

lemma example_unordered:
  "serializeToQueryString exampleLib
     (Marshals (JObject [(''c'', JString ''x''), (''b'', JNull), (''a'', num1)])) = Inr ''a=1&c=x''"
  by code_simp

lemma example_out_of_range:
  "serializeToQueryString exampleLib (Marshals (JObject [(''a'', JNumber (Number False 1 999))])) =
     Inl (UnmarshalQueryFailed (NumberOutOfRange (Number False 1 999)))"
  by (simp add: serializeToQueryString_def Unmarshal_map_def Unmarshal_object_def ParseFloat_def
        overflows_def)
lemma upperhex_plain: "n < 16 \<Longrightarrow> upperhex n \<noteq> CHR ''&'' \<and> upperhex n \<noteq> CHR ''=''"
proof -
  assume "n < 16"
  then have "upperhex n \<in> set ''0123456789ABCDEF''"
    unfolding upperhex_def by (intro nth_mem) simp
  then show ?thesis by auto
qed

lemma shouldEscape_delimiters: "shouldEscape (CHR ''&'')" "shouldEscape (CHR ''='')"
  by (simp_all add: shouldEscape_def is_lower_def is_upper_def is_digit_def)

lemma escape_byte_plain: "CHR ''&'' \<notin> set (escape_byte c) \<and> CHR ''='' \<notin> set (escape_byte c)"
proof (cases "shouldEscape c")
  case False
  then have "c \<noteq> CHR ''&''" "c \<noteq> CHR ''=''"
    using shouldEscape_delimiters by auto
  then show ?thesis using False by (simp add: escape_byte_def)
next
  case True
  have "(of_char c :: nat) < 16 * 16"
    by simp
  then have hi: "of_char c div 16 < (16::nat)"
    by (rule less_mult_imp_div_less)
  have lo: "of_char c mod 16 < (16::nat)"
    by simp
  show ?thesis
    using True upperhex_plain[OF hi] upperhex_plain[OF lo]
    by (simp add: escape_byte_def eq_commute)
qed

lemma QueryEscape_plain: "CHR ''&'' \<notin> set (QueryEscape s) \<and> CHR ''='' \<notin> set (QueryEscape s)"
  by (induction s) (simp_all add: QueryEscape_def escape_byte_plain)

text \<open>
  C2. For the query object \<^verbatim>\<open>{"a":1,"b":null,"c":"x"}\<close> the query string is
  \<^verbatim>\<open>a=1&c=x\<close>: the pairs for \<^verbatim>\<open>a\<close> and \<^verbatim>\<open>c\<close>, none for \<^verbatim>\<open>b\<close>. For every query
  object: when it does not unmarshal into the map (a number that does not fit a
  \<^verbatim>\<open>float64\<close>, nesting deeper than 10000), the function returns the error of line 123
  and no string; otherwise the string is made of one pair for each entry of the decoded
  map that is not nil, so a key whose value is null has no pair. (An escaped key or
  value contains neither \<^verbatim>\<open>&\<close> nor \<^verbatim>\<open>=\<close>, so the pairs can be read off the string.)
\<close>

theorem C2_null_valued_keys_are_omitted:
  assumes "\<And>m. mset (range_order E m) = mset m"
  shows "serializeToQueryString E
           (Marshals (JObject [(''a'', num1), (''b'', JNull), (''c'', JString ''x'')])) =
           Inr ''a=1&c=x'' \<and>
         (case Unmarshal_map (nearest_float64 E) (JObject kvs) of
            Inl e \<Rightarrow> serializeToQueryString E (Marshals (JObject kvs)) = Inl (UnmarshalQueryFailed e)
          | Inr m \<Rightarrow>
              (\<exists>ps. serializeToQueryString E (Marshals (JObject kvs)) =
                      Inr (join ''&'' (map (\<lambda>(k, v). QueryEscape k @ ''='' @ QueryEscape (Sprint v)) ps)) \<and>
                    set ps = {(k, v). (k, v) \<in> set m \<and> v \<noteq> DNil} \<and>
                    (\<forall>k. (k, JNull) \<in> set (object_entries kvs) \<longrightarrow> k \<notin> fst ` set ps))) \<and>
         (\<forall>s. CHR ''&'' \<notin> set (QueryEscape s) \<and> CHR ''='' \<notin> set (QueryEscape s))"
proof -
  have 1: "serializeToQueryString E
           (Marshals (JObject [(''a'', num1), (''b'', JNull), (''c'', JString ''x'')])) =
           Inr ''a=1&c=x''"
    by (simp only: serializeToQueryString_object[OF assms example_decoded] example_pairs)
  have 2: "\<exists>ps. serializeToQueryString E (Marshals (JObject kvs)) =
                  Inr (join ''&'' (map (\<lambda>(k, v). QueryEscape k @ ''='' @ QueryEscape (Sprint v)) ps)) \<and>
                set ps = {(k, v). (k, v) \<in> set m \<and> v \<noteq> DNil} \<and>
                (\<forall>k. (k, JNull) \<in> set (object_entries kvs) \<longrightarrow> k \<notin> fst ` set ps)"
    if m: "Unmarshal_map (nearest_float64 E) (JObject kvs) = Inr m" for m
  proof -
    let ?ps = "sort_key fst (filter (\<lambda>(k, v). v \<noteq> DNil) m)"
    have o: "Unmarshal_object (nearest_float64 E) kvs = Inr m"
      using m by (simp add: Unmarshal_map_def split: if_splits)
    have a: "serializeToQueryString E (Marshals (JObject kvs)) =
               Inr (join ''&'' (map (\<lambda>(k, v). QueryEscape k @ ''='' @ QueryEscape (Sprint v)) ?ps))"
      by (rule serializeToQueryString_object[OF assms m])
    have b: "set ?ps = {(k, v). (k, v) \<in> set m \<and> v \<noteq> DNil}"
      by auto
    have c: "k \<notin> fst ` set ?ps" if "(k, JNull) \<in> set (object_entries kvs)" for k
    proof
      assume "k \<in> fst ` set ?ps"
      then obtain v where v: "(k, v) \<in> set m" "v \<noteq> DNil"
        by auto
      have "(k, DNil) \<in> set m"
        using Unmarshal_object_null[OF o] that by simp
      with Unmarshal_object_distinct[OF o] v(1) have "v = DNil"
        by (rule eq_key_imp_eq_value)
      then show False using v(2) by simp
    qed
    show ?thesis using a b c by blast
  qed
  have 3: "serializeToQueryString E (Marshals (JObject kvs)) = Inl (UnmarshalQueryFailed e)"
    if "Unmarshal_map (nearest_float64 E) (JObject kvs) = Inl e" for e
    using that by (rule serializeToQueryString_failed)
  show ?thesis
    using 1 2 3 QueryEscape_plain by (auto split: sum.splits)
qed

theorem C2_null_valued_keys_are_omitted_witness:
  "(''b'', JNull) \<in> set (object_entries [(''a'', num1), (''b'', JNull), (''c'', JString ''x'')]) \<and>
   serializeToQueryString exampleLib
     (Marshals (JObject [(''a'', num1), (''b'', JNull), (''c'', JString ''x'')])) = Inr ''a=1&c=x'' \<and>
   (\<exists>ps. serializeToQueryString exampleLib
            (Marshals (JObject [(''a'', num1), (''b'', JNull), (''c'', JString ''x'')])) =
            Inr (join ''&'' (map (\<lambda>(k, v). QueryEscape k @ ''='' @ QueryEscape (Sprint v)) ps)) \<and>
         ''b'' \<notin> fst ` set ps) \<and>
   serializeToQueryString exampleLib (Marshals (JObject [(''a'', JNumber (Number False 1 999))])) =
     Inl (UnmarshalQueryFailed (NumberOutOfRange (Number False 1 999)))"
proof -
  have p: "mset (range_order exampleLib m) = mset m" for m
    by simp
  note c = C2_null_valued_keys_are_omitted[of exampleLib
      "[(''a'', num1), (''b'', JNull), (''c'', JString ''x'')]", OF p]
  have 1: "serializeToQueryString exampleLib
     (Marshals (JObject [(''a'', num1), (''b'', JNull), (''c'', JString ''x'')])) = Inr ''a=1&c=x''"
    by (rule c[THEN conjunct1])
  obtain ps where ps: "serializeToQueryString exampleLib
            (Marshals (JObject [(''a'', num1), (''b'', JNull), (''c'', JString ''x'')])) =
            Inr (join ''&'' (map (\<lambda>(k, v). QueryEscape k @ ''='' @ QueryEscape (Sprint v)) ps))"
    and omitted: "\<forall>k. (k, JNull) \<in> set (object_entries [(''a'', num1), (''b'', JNull), (''c'', JString ''x'')])
                    \<longrightarrow> k \<notin> fst ` set ps"
    using c[THEN conjunct2, THEN conjunct1] by (auto simp: example_decoded)
  have "''b'' \<notin> fst ` set ps"
    using omitted example_entries by blast
  with ps 1 example_entries example_out_of_range show ?thesis
    by blast
qed

text \<open>
  C10. The result of \<^verbatim>\<open>serializeToQueryString\<close> does not depend on the order in which
  \<^verbatim>\<open>range\<close> visits the decoded map: two runs on the same query value (with the same
  library) return the same string, or the same error. Whenever it returns a string for
  an object, the pairs of the string are in ascending order of their keys, compared byte
  by byte, each key once.
\<close>

theorem C10_query_string_is_deterministic:
  assumes "\<And>m. mset (range_order E m) = mset m"
    and "\<And>m. mset (range_order E' m) = mset m"
    and "nearest_float64 E' = nearest_float64 E"
  shows "serializeToQueryString E q = serializeToQueryString E' q \<and>
         (\<forall>s. serializeToQueryString E (Marshals (JObject kvs)) = Inr s \<longrightarrow>
            (\<exists>ps m. s = join ''&'' (map (\<lambda>(k, v). QueryEscape k @ ''='' @ QueryEscape (Sprint v)) ps) \<and>
                    sorted (map fst ps) \<and> distinct (map fst ps) \<and>
                    Unmarshal_map (nearest_float64 E) (JObject kvs) = Inr m \<and>
                    set ps = {(k, v). (k, v) \<in> set m \<and> v \<noteq> DNil}))"
proof -
  have 1: "serializeToQueryString E q = serializeToQueryString E' q"
    using assms by (rule serializeToQueryString_order)
  have 2: "\<exists>ps m. s = join ''&'' (map (\<lambda>(k, v). QueryEscape k @ ''='' @ QueryEscape (Sprint v)) ps) \<and>
                    sorted (map fst ps) \<and> distinct (map fst ps) \<and>
                    Unmarshal_map (nearest_float64 E) (JObject kvs) = Inr m \<and>
                    set ps = {(k, v). (k, v) \<in> set m \<and> v \<noteq> DNil}"
    if s: "serializeToQueryString E (Marshals (JObject kvs)) = Inr s" for s
  proof -
    obtain m where m: "Unmarshal_map (nearest_float64 E) (JObject kvs) = Inr m"
      using s by (auto simp: serializeToQueryString_def split: sum.splits)
    let ?ps = "sort_key fst (filter (\<lambda>(k, v). v \<noteq> DNil) m)"
    have o: "Unmarshal_object (nearest_float64 E) kvs = Inr m"
      using m by (simp add: Unmarshal_map_def split: if_splits)
    have a: "s = join ''&'' (map (\<lambda>(k, v). QueryEscape k @ ''='' @ QueryEscape (Sprint v)) ?ps)"
      using serializeToQueryString_object[OF assms(1) m] s by simp
    have b: "sorted (map fst ?ps)"
      by simp
    have "distinct (map fst (filter (\<lambda>(k, v). v \<noteq> DNil) m))"
      using Unmarshal_object_distinct[OF o] by (rule distinct_map_filter)
    then have c: "distinct (map fst ?ps)"
      by (simp add: sort_map_key[symmetric])
    have d: "set ?ps = {(k, v). (k, v) \<in> set m \<and> v \<noteq> DNil}"
      by auto
    show ?thesis using a b c m d by blast
  qed
  show ?thesis
    using 1 2 by blast
qed

theorem C10_query_string_is_deterministic_witness:
  "serializeToQueryString exampleLib
     (Marshals (JObject [(''c'', JString ''x''), (''b'', JNull), (''a'', num1)])) =
   serializeToQueryString (exampleLib\<lparr>range_order := id\<rparr>)
     (Marshals (JObject [(''c'', JString ''x''), (''b'', JNull), (''a'', num1)])) \<and>
   serializeToQueryString exampleLib
     (Marshals (JObject [(''c'', JString ''x''), (''b'', JNull), (''a'', num1)])) = Inr ''a=1&c=x'' \<and>
   (\<exists>ps. ''a=1&c=x'' = join ''&'' (map (\<lambda>(k, v). QueryEscape k @ ''='' @ QueryEscape (Sprint v)) ps) \<and>
         sorted (map fst ps))"
proof -
  have 1: "mset (range_order exampleLib m) = mset m" for m
    by simp
  have 2: "mset (range_order (exampleLib\<lparr>range_order := id\<rparr>) m) = mset m" for m
    by simp
  have 3: "nearest_float64 (exampleLib\<lparr>range_order := id\<rparr>) = nearest_float64 exampleLib"
    by simp
  note c = C10_query_string_is_deterministic[OF 1 2 3,
      where kvs = "[(''c'', JString ''x''), (''b'', JNull), (''a'', num1)]"]
  have a: "serializeToQueryString exampleLib
     (Marshals (JObject [(''c'', JString ''x''), (''b'', JNull), (''a'', num1)])) =
   serializeToQueryString (exampleLib\<lparr>range_order := id\<rparr>)
     (Marshals (JObject [(''c'', JString ''x''), (''b'', JNull), (''a'', num1)]))"
    by (rule c[THEN conjunct1])
  have b: "\<exists>ps. ''a=1&c=x'' = join ''&'' (map (\<lambda>(k, v). QueryEscape k @ ''='' @ QueryEscape (Sprint v)) ps) \<and>
         sorted (map fst ps)"
    using c[THEN conjunct2, rule_format, OF example_unordered] by blast
  from a b example_unordered show ?thesis
    by blast
qed

end
